theory Spec2Isabelle
  imports Main
begin

section \<open>JavaScript values\<close>

text \<open>
  The client is JavaScript. A native value is modelled by the datatype \<open>jsval\<close>, one
  constructor for each kind of value that \<^verbatim>\<open>typeof\<close>, \<^verbatim>\<open>Array.isArray\<close> and
  \<^verbatim>\<open>=== null\<close> tell apart in \<^verbatim>\<open>toFirestoreValue\<close>.

  A JavaScript number is an IEEE double. The codec only asks whether a number is an
  integer (\<^verbatim>\<open>Number.isInteger\<close>), prints integers (\<^verbatim>\<open>String\<close>) and reads them back
  (\<^verbatim>\<open>parseInt\<close>), so a number is modelled by its mathematical value:
  \<^item> \<open>IntNum i\<close> is the double whose value is the integer \<open>i\<close> (negative zero is
    identified with zero, as \<^verbatim>\<open>===\<close> does);
  \<^item> \<open>FracNum m e\<close> is the finite non-integer double \<open>m / 2^e\<close> (\<open>m\<close> odd, \<open>e > 0\<close>);
  \<^item> \<open>NaN\<close>, \<open>PosInf\<close>, \<open>NegInf\<close> are the three non-finite doubles.

  An object is the list of its own enumerable string-keyed properties in the order of
  \<^verbatim>\<open>Object.entries\<close>; the keys of an object are distinct. \<open>Obj\<close> is a plain object;
  \<open>Instance c ps\<close> is any other object that is not an array (a \<^verbatim>\<open>Date\<close>, a \<^verbatim>\<open>Map\<close>,
  an instance of a class), with the name \<open>c\<close> of its class and its own enumerable
  properties \<open>ps\<close> (a \<^verbatim>\<open>Date\<close> has none). \<^verbatim>\<open>typeof\<close> gives \<^verbatim>\<open>object\<close> for both.
  Values are finite trees: an object that contains itself is not a value here.
  A string is a list of characters, each a code unit below 256.
\<close>

datatype number = IntNum int | FracNum int nat | NaN | PosInf | NegInf

datatype jsval =
    Undefined
  | Null
  | Bool bool
  | Num number
  | Str string
  | Arr "jsval list"
  | Obj "(string \<times> jsval) list"
  | Instance string "(string \<times> jsval) list"
  | BigInt int
  | Symbol string
  | Function string


subsection \<open>Rounding to a double\<close>

text \<open>Number of binary digits of a natural number.\<close>

fun nbits :: "nat \<Rightarrow> nat" where
  "nbits n = (if n = 0 then 0 else Suc (nbits (n div 2)))"

declare nbits.simps [simp del]

text \<open>
  The double nearest to a non-negative integer \<open>m\<close>, ties to the even significand
  (53 significant bits); \<open>None\<close> when the result overflows to \<^verbatim>\<open>Infinity\<close>
  (at \<open>2^1024\<close>).
\<close>

definition round_double :: "nat \<Rightarrow> nat option" where
  "round_double m =
     (if m < 2 ^ 53 then Some m
      else let e = nbits m - 53;
               q = m div 2 ^ e;
               r = m mod 2 ^ e;
               q' = (if 2 ^ e < 2 * r \<or> (2 * r = 2 ^ e \<and> odd q) then q + 1 else q);
               v = q' * 2 ^ e
           in if 2 ^ 1024 \<le> v then None else Some v)"

text \<open>An integer is a JavaScript number when rounding leaves its magnitude alone.\<close>

definition is_double :: "int \<Rightarrow> bool" where
  "is_double i = (round_double (nat \<bar>i\<bar>) = Some (nat \<bar>i\<bar>))"

subsection \<open>\<^verbatim>\<open>String(n)\<close> for an integer-valued number\<close>

text \<open>Decimal digits of a natural number, most significant first.\<close>

definition digit_char :: "nat \<Rightarrow> char" where
  "digit_char d = ''0123456789'' ! d"

fun digits10 :: "nat \<Rightarrow> string" where
  "digits10 n = (if n < 10 then [digit_char n] else digits10 (n div 10) @ [digit_char (n mod 10)])"

declare digits10.simps [simp del]

text \<open>
  ECMAScript \<^verbatim>\<open>Number::toString\<close> picks integers \<open>n\<close>, \<open>k\<close>, \<open>s\<close> with
  \<open>10^(k-1) \<le> s < 10^k\<close>, the double of \<open>s * 10^(n-k)\<close> equal to \<open>x\<close>, and \<open>k\<close> as
  small as possible (the closest \<open>s\<close>, then the even one, when several fit). For a
  positive integer \<open>x\<close> the exponent \<open>j = n - k\<close> is not negative, and a multiple of
  \<open>10^j\<close> that rounds to \<open>x\<close> exists iff one of the two multiples around \<open>x\<close> does.
  \<open>shortest_from x j\<close> tries the exponents \<open>j\<close>, \<open>j - 1\<close>, ..., \<open>0\<close> and returns the first
  \<open>(s, j)\<close> that fits.
\<close>

fun shortest_from :: "nat \<Rightarrow> nat \<Rightarrow> nat \<times> nat" where
  "shortest_from x 0 = (x, 0)"
| "shortest_from x (Suc j) =
     (let p = 10 ^ Suc j;
          lo = x div p;
          hi = lo + 1;
          ok_lo = (0 < lo \<and> round_double (lo * p) = Some x);
          ok_hi = (round_double (hi * p) = Some x)
      in if ok_lo \<and> ok_hi then
           (if x - lo * p < hi * p - x \<or> (x - lo * p = hi * p - x \<and> even lo)
            then (lo, Suc j) else (hi, Suc j))
         else if ok_lo then (lo, Suc j)
         else if ok_hi then (hi, Suc j)
         else shortest_from x j)"

definition shortest :: "nat \<Rightarrow> nat \<times> nat" where
  "shortest x = shortest_from x (length (digits10 x))"

text \<open>
  The string of a positive integer-valued number: plain digits while \<open>n \<le> 21\<close>,
  exponent notation (\<^verbatim>\<open>d.ddde+NN\<close>) from \<open>10^21\<close> on.
\<close>

definition pos_toString :: "nat \<Rightarrow> string" where
  "pos_toString x =
     (let (s, j) = shortest x;
          ds = digits10 s;
          k = length ds;
          n = j + k
      in if n \<le> 21 then ds @ replicate j (CHR ''0'')
         else (if k = 1 then ds else hd ds # CHR ''.'' # tl ds) @ ''e+'' @ digits10 (n - 1))"

definition Number_toString :: "int \<Rightarrow> string" where
  "Number_toString i =
     (if i = 0 then ''0''
      else if i < 0 then CHR ''-'' # pos_toString (nat (- i))
      else pos_toString (nat i))"

subsection \<open>\<^verbatim>\<open>parseInt(string)\<close>\<close>

text \<open>
  \<^verbatim>\<open>parseInt\<close> with no radix: skip leading white space, take a sign, take a
  \<^verbatim>\<open>0x\<close> prefix as radix 16, read the longest prefix of digits, stop at the first
  other character. No digit at all gives \<^verbatim>\<open>NaN\<close>. The mathematical value is rounded
  to a double.

  Of the white space and line terminators of ECMAScript, seven are code units below
  256: TAB, LF, VT, FF, CR, the space and the no-break space U+00A0.
\<close>

definition is_white :: "char \<Rightarrow> bool" where
  "is_white c =
     (c \<in> set [CHR 0x09, CHR 0x0A, CHR 0x0B, CHR 0x0C, CHR 0x0D, CHR '' '', CHR 0xA0])"

definition digit_val :: "char \<Rightarrow> nat option" where
  "digit_val c =
     (let n = of_char c :: nat
      in if 48 \<le> n \<and> n \<le> 57 then Some (n - 48)
         else if 97 \<le> n \<and> n \<le> 122 then Some (n - 87)
         else if 65 \<le> n \<and> n \<le> 90 then Some (n - 55)
         else None)"

definition is_digit :: "nat \<Rightarrow> char \<Rightarrow> bool" where
  "is_digit R c = (case digit_val c of None \<Rightarrow> False | Some d \<Rightarrow> d < R)"

definition radix_val :: "nat \<Rightarrow> string \<Rightarrow> nat" where
  "radix_val R Z = foldl (\<lambda>acc c. acc * R + (case digit_val c of None \<Rightarrow> 0 | Some d \<Rightarrow> d)) 0 Z"

definition parseInt :: "string \<Rightarrow> number" where
  "parseInt inputString =
     (let S = dropWhile is_white inputString;
          neg = (S \<noteq> [] \<and> hd S = CHR ''-'');
          S1 = (if S \<noteq> [] \<and> (hd S = CHR ''+'' \<or> hd S = CHR ''-'') then tl S else S);
          hex = (take 2 S1 = ''0x'' \<or> take 2 S1 = ''0X'');
          R = (if hex then 16 else 10);
          S2 = (if hex then drop 2 S1 else S1);
          Z = takeWhile (is_digit R) S2
      in if Z = [] then NaN
         else case round_double (radix_val R Z) of
                None \<Rightarrow> if neg then NegInf else PosInf
              | Some v \<Rightarrow> IntNum (if neg then - int v else int v))"

text \<open>
  \<^verbatim>\<open>String(value)\<close> for the values that reach the last line of
  \<^verbatim>\<open>toFirestoreValue\<close>: a bigint prints its digits, a symbol prints
  \<^verbatim>\<open>Symbol(description)\<close>, a function prints its source text.
\<close>

fun String_other :: "jsval \<Rightarrow> string" where
  "String_other (BigInt i) = (if i < 0 then CHR ''-'' # digits10 (nat (- i)) else digits10 (nat i))"
| "String_other (Symbol d) = ''Symbol('' @ d @ '')''"
| "String_other (Function src) = src"
| "String_other v = ''''"

section \<open>Value codec\<close>

text \<open>
  The wire form of a field is a Firestore \<^verbatim>\<open>Value\<close>: a JSON object with one tag.
  The tags are listed in the order in which \<^verbatim>\<open>parseFirestoreValue\<close> tests them.
  \<^verbatim>\<open>arrayValue.values\<close> and \<^verbatim>\<open>mapValue.fields\<close> may be absent (\<open>None\<close>);
  \<open>OtherValue\<close> is an object with none of the eight tags.
\<close>

datatype wire =
    StringValue string
  | IntegerValue string
  | DoubleValue number
  | BooleanValue bool
  | NullValue
  | TimestampValue string
  | ArrayValue "wire list option"
  | MapValue "(string \<times> wire) list option"
  | OtherValue

text \<open>
  \<^verbatim>\<open>obj[key] = value\<close> on an object created by \<^verbatim>\<open>{}\<close> and given by its property
  list: an existing property keeps its place, a new one goes last. The key
  \<^verbatim>\<open>__proto__\<close> is the accessor of \<^verbatim>\<open>Object.prototype\<close>: assigning to it sets the
  prototype (or does nothing, for a primitive value) and adds no property.
\<close>

fun put_prop :: "(string \<times> 'a) list \<Rightarrow> string \<Rightarrow> 'a \<Rightarrow> (string \<times> 'a) list" where
  "put_prop [] k v = [(k, v)]"
| "put_prop ((k', v') # ps) k v = (if k' = k then (k, v) # ps else (k', v') # put_prop ps k v)"

definition set_prop :: "(string \<times> 'a) list \<Rightarrow> string \<Rightarrow> 'a \<Rightarrow> (string \<times> 'a) list" where
  "set_prop ps k v = (if k = ''__proto__'' then ps else put_prop ps k v)"

text \<open>
  \<^verbatim>\<open>toFirestoreValue\<close>, with the loop of \<^verbatim>\<open>objectToDoc\<close>: the second argument of
  \<open>objectToDoc_loop\<close> is the object \<^verbatim>\<open>fields\<close> built so far. The test
  \<^verbatim>\<open>typeof value === 'object'\<close> holds of every object that reaches it, plain or not.
\<close>

fun toFirestoreValue :: "jsval \<Rightarrow> wire"
  and objectToDoc_loop :: "(string \<times> jsval) list \<Rightarrow> (string \<times> wire) list \<Rightarrow> (string \<times> wire) list"
where
  "toFirestoreValue Null = NullValue"
| "toFirestoreValue Undefined = NullValue"
| "toFirestoreValue (Str s) = StringValue s"
| "toFirestoreValue (Num (IntNum i)) = IntegerValue (Number_toString i)"
| "toFirestoreValue (Num n) = DoubleValue n"
| "toFirestoreValue (Bool b) = BooleanValue b"
| "toFirestoreValue (Arr xs) = ArrayValue (Some (map toFirestoreValue xs))"
| "toFirestoreValue (Obj kvs) = MapValue (Some (objectToDoc_loop kvs []))"
| "toFirestoreValue (Instance c kvs) = MapValue (Some (objectToDoc_loop kvs []))"
| "toFirestoreValue v = StringValue (String_other v)"
| "objectToDoc_loop [] fields = fields"
| "objectToDoc_loop ((key, value) # rest) fields =
     objectToDoc_loop rest (set_prop fields key (toFirestoreValue value))"

definition objectToDoc :: "(string \<times> jsval) list \<Rightarrow> (string \<times> wire) list" where
  "objectToDoc obj = objectToDoc_loop obj []"

text \<open>
  \<^verbatim>\<open>parseFirestoreValue\<close>, with the loop of \<^verbatim>\<open>docToObject\<close>. \<^verbatim>\<open>docToObject\<close>
  returns \<^verbatim>\<open>null\<close> when \<^verbatim>\<open>fields\<close> is absent.
\<close>

fun parseFirestoreValue :: "wire \<Rightarrow> jsval"
  and docToObject_loop :: "(string \<times> wire) list \<Rightarrow> (string \<times> jsval) list \<Rightarrow> (string \<times> jsval) list"
where
  "parseFirestoreValue (StringValue s) = Str s"
| "parseFirestoreValue (IntegerValue s) = Num (parseInt s)"
| "parseFirestoreValue (DoubleValue n) = Num n"
| "parseFirestoreValue (BooleanValue b) = Bool b"
| "parseFirestoreValue NullValue = Null"
| "parseFirestoreValue (TimestampValue s) = Str s"
| "parseFirestoreValue (ArrayValue None) = Arr []"
| "parseFirestoreValue (ArrayValue (Some vs)) = Arr (map parseFirestoreValue vs)"
| "parseFirestoreValue (MapValue None) = Null"
| "parseFirestoreValue (MapValue (Some fs)) = Obj (docToObject_loop fs [])"
| "parseFirestoreValue OtherValue = Null"
| "docToObject_loop [] obj = obj"
| "docToObject_loop ((key, value) # rest) obj =
     docToObject_loop rest (set_prop obj key (parseFirestoreValue value))"

definition docToObject :: "(string \<times> wire) list option \<Rightarrow> jsval" where
  "docToObject fields = (case fields of None \<Rightarrow> Null | Some fs \<Rightarrow> Obj (docToObject_loop fs []))"

text \<open>
  The values on which decoding restores what was encoded: built from \<^verbatim>\<open>null\<close>,
  booleans, strings, numbers, arrays and plain objects (with distinct keys, none of
  them \<^verbatim>\<open>__proto__\<close>), where every integer-valued number is a double of magnitude
  below \<open>10^21\<close>.
\<close>

fun restorable :: "jsval \<Rightarrow> bool" where
  "restorable Null = True"
| "restorable (Bool b) = True"
| "restorable (Str s) = True"
| "restorable (Num (IntNum i)) = (is_double i \<and> \<bar>i\<bar> < 10 ^ 21)"
| "restorable (Num n) = True"
| "restorable (Arr xs) = (\<forall>x \<in> set xs. restorable x)"
| "restorable (Obj kvs) =
     (distinct (map fst kvs) \<and> ''__proto__'' \<notin> fst ` set kvs \<and>
      (\<forall>kv \<in> set kvs. restorable (snd kv)))"
| "restorable v = False"

text \<open>The characters \<^verbatim>\<open>0\<close> to \<^verbatim>\<open>9\<close>.\<close>

definition dec_digit :: "char \<Rightarrow> bool" where
  "dec_digit c = (\<exists>d<10. c = digit_char d)"

section \<open>The environment: clock, token cache, network\<close>

text \<open>
  The module keeps \<^verbatim>\<open>firebaseConfig\<close>, \<^verbatim>\<open>accessToken\<close> and \<^verbatim>\<open>tokenExpiry\<close> in
  module-level variables, reads the clock with \<^verbatim>\<open>Date.now()\<close> and talks to the
  network with \<^verbatim>\<open>fetch\<close>. The state is the record \<open>world\<close>; \<open>sent\<close> is the list of
  the requests issued so far, oldest first. \<open>tokenExpiry = None\<close> stands for \<^verbatim>\<open>NaN\<close>
  (the outcome of arithmetic on a missing \<^verbatim>\<open>expires_in\<close>).

  An \<^verbatim>\<open>async\<close> function is a function from the world to a result and the new world;
  the result is \<open>Inl e\<close> when the promise rejects with \<open>e\<close> and \<open>Inr v\<close> when it resolves
  with \<open>v\<close>.
\<close>

datatype error =
    Error string
  | TypeError
  | SyntaxError
  | SignError

record config =
  projectId :: string
  clientEmail :: string
  privateKey :: string

text \<open>
  A request body is kept as the value handed to \<^verbatim>\<open>JSON.stringify\<close> (or as the form
  string of the token exchange). A request with no explicit method is a \<^verbatim>\<open>GET\<close>.
\<close>

text \<open>
  The \<^verbatim>\<open>op\<close> of a field filter is what \<^verbatim>\<open>opMap[f.op] || 'EQUAL'\<close> evaluates to: a
  name, or, for a key that \<^verbatim>\<open>opMap\<close> inherits from \<^verbatim>\<open>Object.prototype\<close>, the method
  of that name or (for \<^verbatim>\<open>__proto__\<close>) the prototype object itself.
\<close>

datatype op_value =
    OpName string
  | OpMethod string
  | OpPrototype

datatype filter_json =
    FieldFilter string op_value wire
  | CompositeFilter string "filter_json list"

record structuredQuery =
  sq_from :: "string list"
  sq_where :: "filter_json option"
  sq_limit :: "int option"

datatype body =
    FormBody string
  | DocBody "(string \<times> wire) list"
  | QueryBody structuredQuery

record request =
  req_method :: string
  req_url :: string
  req_headers :: "(string \<times> string) list"
  req_body :: "body option"

text \<open>
  The JSON documents the client reads from a response. Only the properties that the
  code looks at are kept: a Firestore document resource (\<^verbatim>\<open>name\<close>, \<^verbatim>\<open>fields\<close>, and
  the \<^verbatim>\<open>id\<close> the client adds), the token endpoint's object, the document list of a
  collection, and the array of result envelopes of a query.
\<close>

record document =
  doc_id :: "string option"
  doc_name :: "string option"
  doc_fields :: "(string \<times> wire) list option"

datatype json =
    TokenJson "string option" "int option" "string option" "string option"
  | DocJson document
  | ListJson "document list option"
  | ResultsJson "document option list"

record response =
  status :: nat
  json_body :: "json option"

definition ok :: "response \<Rightarrow> bool" where
  "ok r = (200 \<le> status r \<and> status r \<le> 299)"

datatype fetch_result = Rejected | Responded response

text \<open>
  What the program cannot decide is a parameter: \<open>net\<close> is the network (the time a
  request takes, in milliseconds, and its outcome, which may depend on every request
  made before), \<open>sign\<close> is the base64url encoding and RSA signature of a JWT
  (\<open>None\<close> when importing the key or signing throws).
\<close>

record jwt_payload =
  iss :: string
  sub :: string
  aud :: string
  iat :: int
  exp :: int
  scope :: string

record env =
  net :: "request list \<Rightarrow> request \<Rightarrow> nat \<times> fetch_result"
  sign :: "string \<Rightarrow> jwt_payload \<Rightarrow> string option"

record world =
  firebaseConfig :: "config option"
  accessToken :: "string option"
  tokenExpiry :: "int option"
  clock :: int
  sent :: "request list"

type_synonym 'a async = "world \<Rightarrow> (error + 'a) \<times> world"

text \<open>\<^verbatim>\<open>await fetch(url, init)\<close>: the request is recorded, time passes.\<close>

definition fetch :: "env \<Rightarrow> request \<Rightarrow> response async" where
  "fetch E rq w =
     (let (dt, res) = net E (sent w) rq;
          w' = w\<lparr>sent := sent w @ [rq], clock := clock w + int dt\<rparr>
      in case res of
           Rejected \<Rightarrow> (Inl TypeError, w')
         | Responded r \<Rightarrow> (Inr r, w'))"

text \<open>\<^verbatim>\<open>await response.json()\<close> rejects when the body is not JSON.\<close>

definition response_json :: "response \<Rightarrow> error + json" where
  "response_json r = (case json_body r of None \<Rightarrow> Inl SyntaxError | Some d \<Rightarrow> Inr d)"

text \<open>A string interpolated into a template literal; \<^verbatim>\<open>undefined\<close> prints its name.\<close>

definition interpolate :: "string option \<Rightarrow> string" where
  "interpolate s = (case s of None \<Rightarrow> ''undefined'' | Some t \<Rightarrow> t)"

text \<open>Truthiness of a string-or-undefined value: the empty string is falsy.\<close>

definition truthy :: "string option \<Rightarrow> bool" where
  "truthy s = (case s of None \<Rightarrow> False | Some t \<Rightarrow> t \<noteq> [])"

section \<open>Credential signer\<close>

definition createJWT :: "env \<Rightarrow> world \<Rightarrow> error + string" where
  "createJWT E w =
     (case firebaseConfig w of
        None \<Rightarrow> Inl TypeError
      | Some c \<Rightarrow>
          let now = clock w div 1000;
              payload = \<lparr>iss = clientEmail c, sub = clientEmail c,
                         aud = ''https://oauth2.googleapis.com/token'',
                         iat = now, exp = now + 3600,
                         scope = ''https://www.googleapis.com/auth/datastore https://www.googleapis.com/auth/firebase.database''\<rparr>
          in (case sign E (privateKey c) payload of
                None \<Rightarrow> Inl SignError
              | Some jwt \<Rightarrow> Inr jwt))"

definition token_request :: "string \<Rightarrow> request" where
  "token_request jwt =
     \<lparr>req_method = ''POST'',
      req_url = ''https://oauth2.googleapis.com/token'',
      req_headers = [(''Content-Type'', ''application/x-www-form-urlencoded'')],
      req_body = Some (FormBody (''grant_type=urn:ietf:params:oauth:grant-type:jwt-bearer&assertion='' @ jwt))\<rparr>"

fun json_access_token :: "json \<Rightarrow> string option" where
  "json_access_token (TokenJson t e d r) = t"
| "json_access_token j = None"

fun json_expires_in :: "json \<Rightarrow> int option" where
  "json_expires_in (TokenJson t e d r) = e"
| "json_expires_in j = None"

fun json_error_description :: "json \<Rightarrow> string option" where
  "json_error_description (TokenJson t e d r) = d"
| "json_error_description j = None"

fun json_error :: "json \<Rightarrow> string option" where
  "json_error (TokenJson t e d r) = r"
| "json_error j = None"

text \<open>
  \<^verbatim>\<open>getAccessToken\<close>. The cached token is returned when it is truthy and
  \<^verbatim>\<open>tokenExpiry > now\<close>; otherwise a JWT is signed and exchanged. \<^verbatim>\<open>now\<close> is read
  once, before the exchange.
\<close>

definition getAccessToken :: "env \<Rightarrow> string option async" where
  "getAccessToken E w =
     (let now = clock w
      in if truthy (accessToken w) \<and> (case tokenExpiry w of None \<Rightarrow> False | Some t \<Rightarrow> now < t)
         then (Inr (accessToken w), w)
         else case createJWT E w of
                Inl e \<Rightarrow> (Inl e, w)
              | Inr jwt \<Rightarrow>
                  (case fetch E (token_request jwt) w of
                     (Inl e, w1) \<Rightarrow> (Inl e, w1)
                   | (Inr response, w1) \<Rightarrow>
                       (case response_json response of
                          Inl e \<Rightarrow> (Inl e, w1)
                        | Inr data \<Rightarrow>
                            if \<not> ok response then
                              (Inl (Error (''Failed to get access token: '' @
                                 interpolate (if truthy (json_error_description data)
                                              then json_error_description data
                                              else json_error data))), w1)
                            else
                              (Inr (json_access_token data),
                               w1\<lparr>accessToken := json_access_token data,
                                  tokenExpiry := (case json_expires_in data of
                                                    None \<Rightarrow> None
                                                  | Some s \<Rightarrow> Some (now + (s - 60) * 1000))\<rparr>))))"

section \<open>Document client\<close>

definition getFirestoreUrl :: "world \<Rightarrow> string \<Rightarrow> error + string" where
  "getFirestoreUrl w path =
     (case firebaseConfig w of
        None \<Rightarrow> Inl TypeError
      | Some c \<Rightarrow> Inr (''https://firestore.googleapis.com/v1/projects/'' @ projectId c @
                      ''/databases/(default)/documents'' @ path))"

definition bearer :: "string option \<Rightarrow> string \<times> string" where
  "bearer token = (''Authorization'', ''Bearer '' @ interpolate token)"

definition content_json :: "string \<times> string" where
  "content_json = (''Content-Type'', ''application/json'')"

text \<open>\<^verbatim>\<open>name.split('/').pop()\<close>: what follows the last slash.\<close>

definition last_segment :: "string \<Rightarrow> string" where
  "last_segment s = rev (takeWhile (\<lambda>c. c \<noteq> CHR ''/'') (rev s))"

text \<open>
  \<^verbatim>\<open>DocumentSnapshot\<close>: \<^verbatim>\<open>id = doc.id || doc.name?.split('/').pop()\<close> and
  \<^verbatim>\<open>exists = !!doc.fields\<close>; \<^verbatim>\<open>data()\<close> is \<^verbatim>\<open>docToObject\<close> of the document.
\<close>

record DocumentSnapshot =
  snap_doc :: document
  snap_collection :: string
  snap_id :: "string option"
  snap_exists :: bool

definition new_DocumentSnapshot :: "document \<Rightarrow> string \<Rightarrow> DocumentSnapshot" where
  "new_DocumentSnapshot doc collection =
     \<lparr>snap_doc = doc,
      snap_collection = collection,
      snap_id = (if truthy (doc_id doc) then doc_id doc
                 else (case doc_name doc of None \<Rightarrow> None | Some n \<Rightarrow> Some (last_segment n))),
      snap_exists = (doc_fields doc \<noteq> None)\<rparr>"

definition snap_data :: "DocumentSnapshot \<Rightarrow> jsval" where
  "snap_data snap = docToObject (doc_fields (snap_doc snap))"

record QuerySnapshot =
  qs_docs :: "document list"
  qs_collection :: string
  qs_size :: nat
  qs_empty :: bool

definition new_QuerySnapshot :: "document list \<Rightarrow> string \<Rightarrow> QuerySnapshot" where
  "new_QuerySnapshot docs collection =
     \<lparr>qs_docs = docs, qs_collection = collection,
      qs_size = length docs, qs_empty = (length docs = 0)\<rparr>"

text \<open>
  \<^verbatim>\<open>{ id: this.id, ...data }\<close>: the properties of the response object, read as a
  document, under the reference's id. An object without \<^verbatim>\<open>name\<close> and \<^verbatim>\<open>fields\<close>
  (an error body, say) contributes nothing.
\<close>

fun spread_under_id :: "string \<Rightarrow> json \<Rightarrow> document" where
  "spread_under_id i (DocJson d) =
     \<lparr>doc_id = (case doc_id d of None \<Rightarrow> Some i | Some i' \<Rightarrow> Some i'),
      doc_name = doc_name d, doc_fields = doc_fields d\<rparr>"
| "spread_under_id i j = \<lparr>doc_id = Some i, doc_name = None, doc_fields = None\<rparr>"

record DocumentRef =
  ref_collection :: string
  ref_id :: string

definition doc_path :: "DocumentRef \<Rightarrow> string" where
  "doc_path r = ''/'' @ ref_collection r @ ''/'' @ ref_id r"

definition DocumentRef_get :: "env \<Rightarrow> DocumentRef \<Rightarrow> DocumentSnapshot async" where
  "DocumentRef_get E r w =
     (case getAccessToken E w of
        (Inl e, w1) \<Rightarrow> (Inl e, w1)
      | (Inr token, w1) \<Rightarrow>
          (case getFirestoreUrl w1 (doc_path r) of
             Inl e \<Rightarrow> (Inl e, w1)
           | Inr url \<Rightarrow>
               (case fetch E \<lparr>req_method = ''GET'', req_url = url,
                              req_headers = [bearer token], req_body = None\<rparr> w1 of
                  (Inl e, w2) \<Rightarrow> (Inl e, w2)
                | (Inr response, w2) \<Rightarrow>
                    if status response = 404 then
                      (Inr (new_DocumentSnapshot
                              \<lparr>doc_id = Some (ref_id r), doc_name = None, doc_fields = None\<rparr>
                              (ref_collection r)), w2)
                    else
                      (case response_json response of
                         Inl e \<Rightarrow> (Inl e, w2)
                       | Inr data \<Rightarrow>
                           (Inr (new_DocumentSnapshot (spread_under_id (ref_id r) data)
                                   (ref_collection r)), w2)))))"

text \<open>
  \<^verbatim>\<open>Object.keys(obj).map(k => `updateMask.fieldPaths=${k}`).join('&')\<close>.
\<close>

fun join :: "string \<Rightarrow> string list \<Rightarrow> string" where
  "join sep [] = []"
| "join sep [x] = x"
| "join sep (x # y # ys) = x @ sep @ join sep (y # ys)"

definition updateMask :: "(string \<times> jsval) list \<Rightarrow> string" where
  "updateMask obj = join ''&'' (map (\<lambda>k. ''updateMask.fieldPaths='' @ k) (map fst obj))"

text \<open>
  The options of \<^verbatim>\<open>set\<close>: \<^verbatim>\<open>options = {}\<close> by default, and \<^verbatim>\<open>options.merge\<close> is
  tested for truthiness; \<open>None\<close> is an absent \<^verbatim>\<open>merge\<close>.
\<close>

record set_options =
  merge :: "bool option"

definition no_options :: set_options where
  "no_options = \<lparr>merge = None\<rparr>"

definition DocumentRef_set ::
  "env \<Rightarrow> DocumentRef \<Rightarrow> (string \<times> jsval) list \<Rightarrow> set_options \<Rightarrow> unit async" where
  "DocumentRef_set E r obj options w =
     (case getAccessToken E w of
        (Inl e, w1) \<Rightarrow> (Inl e, w1)
      | (Inr token, w1) \<Rightarrow>
          (let doc = objectToDoc obj
           in case getFirestoreUrl w1 (doc_path r) of
                Inl e \<Rightarrow> (Inl e, w1)
              | Inr url0 \<Rightarrow>
                  (let url = (if merge options = Some True
                              then url0 @ ''?'' @ updateMask obj else url0)
                   in case fetch E \<lparr>req_method = ''PATCH'', req_url = url,
                                     req_headers = [bearer token, content_json],
                                     req_body = Some (DocBody doc)\<rparr> w1 of
                        (Inl e, w2) \<Rightarrow> (Inl e, w2)
                      | (Inr response, w2) \<Rightarrow> (Inr (), w2))))"

definition DocumentRef_update ::
  "env \<Rightarrow> DocumentRef \<Rightarrow> (string \<times> jsval) list \<Rightarrow> unit async" where
  "DocumentRef_update E r obj w =
     (case getAccessToken E w of
        (Inl e, w1) \<Rightarrow> (Inl e, w1)
      | (Inr token, w1) \<Rightarrow>
          (let doc = objectToDoc obj
           in case getFirestoreUrl w1 (doc_path r @ ''?'' @ updateMask obj) of
                Inl e \<Rightarrow> (Inl e, w1)
              | Inr url \<Rightarrow>
                  (case fetch E \<lparr>req_method = ''PATCH'', req_url = url,
                                 req_headers = [bearer token, content_json],
                                 req_body = Some (DocBody doc)\<rparr> w1 of
                     (Inl e, w2) \<Rightarrow> (Inl e, w2)
                   | (Inr response, w2) \<Rightarrow> (Inr (), w2))))"

definition DocumentRef_delete :: "env \<Rightarrow> DocumentRef \<Rightarrow> unit async" where
  "DocumentRef_delete E r w =
     (case getAccessToken E w of
        (Inl e, w1) \<Rightarrow> (Inl e, w1)
      | (Inr token, w1) \<Rightarrow>
          (case getFirestoreUrl w1 (doc_path r) of
             Inl e \<Rightarrow> (Inl e, w1)
           | Inr url \<Rightarrow>
               (case fetch E \<lparr>req_method = ''DELETE'', req_url = url,
                              req_headers = [bearer token], req_body = None\<rparr> w1 of
                  (Inl e, w2) \<Rightarrow> (Inl e, w2)
                | (Inr response, w2) \<Rightarrow> (Inr (), w2))))"

text \<open>\<^verbatim>\<open>CollectionRef.add\<close>: the id is the last segment of the created name.\<close>

fun json_name :: "json \<Rightarrow> string option" where
  "json_name (DocJson d) = doc_name d"
| "json_name j = None"

definition CollectionRef_add ::
  "env \<Rightarrow> string \<Rightarrow> (string \<times> jsval) list \<Rightarrow> string option async" where
  "CollectionRef_add E name data w =
     (case getAccessToken E w of
        (Inl e, w1) \<Rightarrow> (Inl e, w1)
      | (Inr token, w1) \<Rightarrow>
          (let doc = objectToDoc data
           in case getFirestoreUrl w1 (''/'' @ name) of
                Inl e \<Rightarrow> (Inl e, w1)
              | Inr url \<Rightarrow>
                  (case fetch E \<lparr>req_method = ''POST'', req_url = url,
                                 req_headers = [bearer token, content_json],
                                 req_body = Some (DocBody doc)\<rparr> w1 of
                     (Inl e, w2) \<Rightarrow> (Inl e, w2)
                   | (Inr response, w2) \<Rightarrow>
                       (case response_json response of
                          Inl e \<Rightarrow> (Inl e, w2)
                        | Inr result \<Rightarrow>
                            (Inr (case json_name result of
                                    None \<Rightarrow> None
                                  | Some n \<Rightarrow> Some (last_segment n)), w2)))))"

fun json_documents :: "json \<Rightarrow> document list option" where
  "json_documents (ListJson ds) = ds"
| "json_documents j = None"

definition CollectionRef_get :: "env \<Rightarrow> string \<Rightarrow> QuerySnapshot async" where
  "CollectionRef_get E name w =
     (case getAccessToken E w of
        (Inl e, w1) \<Rightarrow> (Inl e, w1)
      | (Inr token, w1) \<Rightarrow>
          (case getFirestoreUrl w1 (''/'' @ name) of
             Inl e \<Rightarrow> (Inl e, w1)
           | Inr url \<Rightarrow>
               (case fetch E \<lparr>req_method = ''GET'', req_url = url,
                              req_headers = [bearer token], req_body = None\<rparr> w1 of
                  (Inl e, w2) \<Rightarrow> (Inl e, w2)
                | (Inr response, w2) \<Rightarrow>
                    (case response_json response of
                       Inl e \<Rightarrow> (Inl e, w2)
                     | Inr data \<Rightarrow>
                         (Inr (new_QuerySnapshot
                                 (case json_documents data of None \<Rightarrow> [] | Some ds \<Rightarrow> ds)
                                 name), w2)))))"

section \<open>Query builder\<close>

record filter_spec =
  f_field :: string
  f_op :: string
  f_value :: jsval

record QueryRef =
  q_collection :: string
  q_filters :: "filter_spec list"
  q_limitCount :: "int option"

definition CollectionRef_where :: "string \<Rightarrow> string \<Rightarrow> string \<Rightarrow> jsval \<Rightarrow> QueryRef" where
  "CollectionRef_where name field opr v =
     \<lparr>q_collection = name,
      q_filters = [\<lparr>f_field = field, f_op = opr, f_value = v\<rparr>],
      q_limitCount = None\<rparr>"

definition CollectionRef_limit :: "string \<Rightarrow> int \<Rightarrow> QueryRef" where
  "CollectionRef_limit name n = \<lparr>q_collection = name, q_filters = [], q_limitCount = Some n\<rparr>"

definition QueryRef_where :: "QueryRef \<Rightarrow> string \<Rightarrow> string \<Rightarrow> jsval \<Rightarrow> QueryRef" where
  "QueryRef_where q field opr v =
     \<lparr>q_collection = q_collection q,
      q_filters = q_filters q @ [\<lparr>f_field = field, f_op = opr, f_value = v\<rparr>],
      q_limitCount = q_limitCount q\<rparr>"

definition QueryRef_limit :: "QueryRef \<Rightarrow> int \<Rightarrow> QueryRef" where
  "QueryRef_limit q n =
     \<lparr>q_collection = q_collection q, q_filters = q_filters q, q_limitCount = Some n\<rparr>"

text \<open>
  \<^verbatim>\<open>opMap[f.op] || 'EQUAL'\<close>. \<^verbatim>\<open>opMap\<close> is an object literal: a key that is not its
  own is looked up in \<^verbatim>\<open>Object.prototype\<close>, whose properties are eleven methods and
  the accessor \<^verbatim>\<open>__proto__\<close>. Every value found is truthy, so \<^verbatim>\<open>'EQUAL'\<close> is taken
  exactly when nothing is found.
\<close>

definition opMap :: "(string \<times> string) list" where
  "opMap = [(''=='', ''EQUAL''), (''<'', ''LESS_THAN''), (''>'', ''GREATER_THAN''),
            (''<='', ''LESS_THAN_OR_EQUAL''), (''>='', ''GREATER_THAN_OR_EQUAL'')]"

definition Object_prototype_methods :: "string list" where
  "Object_prototype_methods =
     [''constructor'', ''__defineGetter__'', ''__defineSetter__'', ''hasOwnProperty'',
      ''__lookupGetter__'', ''__lookupSetter__'', ''isPrototypeOf'',
      ''propertyIsEnumerable'', ''toString'', ''valueOf'', ''toLocaleString'']"

definition opMap_get :: "string \<Rightarrow> op_value option" where
  "opMap_get k =
     (case map_of opMap k of
        Some name \<Rightarrow> Some (OpName name)
      | None \<Rightarrow>
          if k \<in> set Object_prototype_methods then Some (OpMethod k)
          else if k = ''__proto__'' then Some OpPrototype
          else None)"

definition fieldFilter :: "filter_spec \<Rightarrow> filter_json" where
  "fieldFilter f =
     FieldFilter (f_field f)
       (case opMap_get (f_op f) of None \<Rightarrow> OpName ''EQUAL'' | Some v \<Rightarrow> v)
       (toFirestoreValue (f_value f))"

text \<open>
  The body of \<^verbatim>\<open>QueryRef.get\<close> up to the request: \<^verbatim>\<open>where\<close> is first set to the
  composite node and then, when there is exactly one filter, replaced by the first
  element of its \<^verbatim>\<open>filters\<close>. A \<^verbatim>\<open>limitCount\<close> of \<^verbatim>\<open>null\<close> or \<^verbatim>\<open>0\<close> is falsy.
\<close>

definition build_structuredQuery :: "QueryRef \<Rightarrow> structuredQuery" where
  "build_structuredQuery q =
     (let sq0 = \<lparr>sq_from = [q_collection q], sq_where = None, sq_limit = None\<rparr>;
          sq1 = (if 0 < length (q_filters q) then
                   (let composite = map fieldFilter (q_filters q);
                        sq = sq0\<lparr>sq_where := Some (CompositeFilter ''AND'' composite)\<rparr>
                    in if length (q_filters q) = 1
                       then sq\<lparr>sq_where := Some (composite ! 0)\<rparr>
                       else sq)
                 else sq0)
      in case q_limitCount q of
           None \<Rightarrow> sq1
         | Some n \<Rightarrow> if n \<noteq> 0 then sq1\<lparr>sq_limit := Some n\<rparr> else sq1)"

definition runQuery_url :: "world \<Rightarrow> error + string" where
  "runQuery_url w =
     (case firebaseConfig w of
        None \<Rightarrow> Inl TypeError
      | Some c \<Rightarrow> Inr (''https://firestore.googleapis.com/v1/projects/'' @ projectId c @
                      ''/databases/(default)/documents:runQuery''))"

text \<open>
  The result envelopes: those without a \<^verbatim>\<open>document\<close> are dropped; a document
  without a \<^verbatim>\<open>name\<close> makes \<^verbatim>\<open>name.split\<close> throw. A response that is not an array
  has no \<^verbatim>\<open>filter\<close> method.
\<close>

fun result_docs :: "document option list \<Rightarrow> error + document list" where
  "result_docs [] = Inr []"
| "result_docs (None # rs) = result_docs rs"
| "result_docs (Some d # rs) =
     (case doc_name d of
        None \<Rightarrow> Inl TypeError
      | Some n \<Rightarrow>
          (case result_docs rs of
             Inl e \<Rightarrow> Inl e
           | Inr ds \<Rightarrow> Inr (\<lparr>doc_id = Some (last_segment n), doc_name = Some n,
                             doc_fields = doc_fields d\<rparr> # ds)))"

fun json_results :: "json \<Rightarrow> error + document option list" where
  "json_results (ResultsJson rs) = Inr rs"
| "json_results j = Inl TypeError"

definition QueryRef_get :: "env \<Rightarrow> QueryRef \<Rightarrow> QuerySnapshot async" where
  "QueryRef_get E q w =
     (case getAccessToken E w of
        (Inl e, w1) \<Rightarrow> (Inl e, w1)
      | (Inr token, w1) \<Rightarrow>
          (let structuredQuery = build_structuredQuery q
           in case runQuery_url w1 of
                Inl e \<Rightarrow> (Inl e, w1)
              | Inr url \<Rightarrow>
                  (case fetch E \<lparr>req_method = ''POST'', req_url = url,
                                 req_headers = [bearer token, content_json],
                                 req_body = Some (QueryBody structuredQuery)\<rparr> w1 of
                     (Inl e, w2) \<Rightarrow> (Inl e, w2)
                   | (Inr response, w2) \<Rightarrow>
                       (case response_json response of
                          Inl e \<Rightarrow> (Inl e, w2)
                        | Inr results \<Rightarrow>
                            (case json_results results of
                               Inl e \<Rightarrow> (Inl e, w2)
                             | Inr rs \<Rightarrow>
                                 (case result_docs rs of
                                    Inl e \<Rightarrow> (Inl e, w2)
                                  | Inr docs \<Rightarrow>
                                      (Inr (new_QuerySnapshot docs (q_collection q)), w2)))))))"

section \<open>Transaction batch\<close>

text \<open>
  The batch is the list \<^verbatim>\<open>operations\<close>; \<^verbatim>\<open>update\<close> and \<^verbatim>\<open>set\<close> push one entry.
  \<^verbatim>\<open>commit\<close> walks the list and awaits each write; a rejected write ends the loop,
  since nothing catches it.
\<close>

datatype operation =
    UpdateOp DocumentRef "(string \<times> jsval) list"
  | SetOp DocumentRef "(string \<times> jsval) list" set_options

definition TransactionBatch_update ::
  "operation list \<Rightarrow> DocumentRef \<Rightarrow> (string \<times> jsval) list \<Rightarrow> operation list" where
  "TransactionBatch_update operations r data = operations @ [UpdateOp r data]"

definition TransactionBatch_set ::
  "operation list \<Rightarrow> DocumentRef \<Rightarrow> (string \<times> jsval) list \<Rightarrow> set_options \<Rightarrow> operation list" where
  "TransactionBatch_set operations r data options = operations @ [SetOp r data options]"

fun run_operation :: "env \<Rightarrow> operation \<Rightarrow> unit async" where
  "run_operation E (UpdateOp r data) w = DocumentRef_update E r data w"
| "run_operation E (SetOp r data options) w = DocumentRef_set E r data options w"

fun TransactionBatch_commit :: "env \<Rightarrow> operation list \<Rightarrow> unit async" where
  "TransactionBatch_commit E [] w = (Inr (), w)"
| "TransactionBatch_commit E (opr # rest) w =
     (case run_operation E opr w of
        (Inl e, w1) \<Rightarrow> (Inl e, w1)
      | (Inr u, w1) \<Rightarrow> TransactionBatch_commit E rest w1)"

text \<open>
  \<^verbatim>\<open>runTransaction(callback)\<close> hands a fresh batch to the callback and commits what
  the callback has enqueued.
\<close>

definition runTransaction :: "env \<Rightarrow> (operation list \<Rightarrow> operation list async) \<Rightarrow> unit async" where
  "runTransaction E callback w =
     (case callback [] w of
        (Inl e, w1) \<Rightarrow> (Inl e, w1)
      | (Inr batch, w1) \<Rightarrow> TransactionBatch_commit E batch w1)"

text \<open>The helpers that stand in for the Admin SDK's field transforms.\<close>

definition FieldValue_increment :: "jsval \<Rightarrow> jsval" where
  "FieldValue_increment n = Obj [(''__fieldTransform'', Str ''increment''), (''value'', n)]"

definition FieldValue_serverTimestamp :: jsval where
  "FieldValue_serverTimestamp = Obj [(''__fieldTransform'', Str ''serverTimestamp'')]"

section \<open>The requests of the document operations\<close>

text \<open>
  Shorthand for the request that each document operation hands to \<^verbatim>\<open>fetch\<close>, given
  the configuration and the token; used to state the theorems.
\<close>

abbreviation documents_url :: "config \<Rightarrow> string \<Rightarrow> string" where
  "documents_url c path \<equiv>
     ''https://firestore.googleapis.com/v1/projects/'' @ projectId c @
     ''/databases/(default)/documents'' @ path"

abbreviation get_request :: "config \<Rightarrow> string option \<Rightarrow> DocumentRef \<Rightarrow> request" where
  "get_request c token r \<equiv>
     \<lparr>req_method = ''GET'', req_url = documents_url c (doc_path r),
      req_headers = [bearer token], req_body = None\<rparr>"

abbreviation set_request ::
  "config \<Rightarrow> string option \<Rightarrow> DocumentRef \<Rightarrow> (string \<times> jsval) list \<Rightarrow> set_options \<Rightarrow> request" where
  "set_request c token r obj options \<equiv>
     \<lparr>req_method = ''PATCH'',
      req_url = (if merge options = Some True
                 then documents_url c (doc_path r) @ ''?'' @ updateMask obj
                 else documents_url c (doc_path r)),
      req_headers = [bearer token, content_json],
      req_body = Some (DocBody (objectToDoc obj))\<rparr>"

abbreviation update_request ::
  "config \<Rightarrow> string option \<Rightarrow> DocumentRef \<Rightarrow> (string \<times> jsval) list \<Rightarrow> request" where
  "update_request c token r obj \<equiv>
     \<lparr>req_method = ''PATCH'',
      req_url = documents_url c (doc_path r @ ''?'' @ updateMask obj),
      req_headers = [bearer token, content_json],
      req_body = Some (DocBody (objectToDoc obj))\<rparr>"

abbreviation delete_request :: "config \<Rightarrow> string option \<Rightarrow> DocumentRef \<Rightarrow> request" where
  "delete_request c token r \<equiv>
     \<lparr>req_method = ''DELETE'', req_url = documents_url c (doc_path r),
      req_headers = [bearer token], req_body = None\<rparr>"


abbreviation add_request ::
  "config \<Rightarrow> string option \<Rightarrow> string \<Rightarrow> (string \<times> jsval) list \<Rightarrow> request" where
  "add_request c token name data \<equiv>
     \<lparr>req_method = ''POST'', req_url = documents_url c (''/'' @ name),
      req_headers = [bearer token, content_json],
      req_body = Some (DocBody (objectToDoc data))\<rparr>"

section \<open>A scripted network for concrete runs\<close>

text \<open>
  Concrete environments and worlds on which the theorems below are run. \<open>server code\<close>
  grants the token \<^verbatim>\<open>tok\<close> for 3600 seconds and answers every other request with the
  status \<open>code\<close> and a JSON object without \<^verbatim>\<open>name\<close> and \<^verbatim>\<open>fields\<close> (an error object). \<open>failing_after n\<close> answers the first \<open>n\<close>
  requests with status 200 and lets every later \<^verbatim>\<open>fetch\<close> reject.
\<close>

definition demo_config :: config where
  "demo_config = \<lparr>projectId = ''demo'', clientEmail = ''svc@demo'', privateKey = ''pem''\<rparr>"

definition server :: "nat \<Rightarrow> env" where
  "server code =
     \<lparr>net = (\<lambda>hist rq.
         if req_url rq = ''https://oauth2.googleapis.com/token''
         then (7, Responded \<lparr>status = 200,
                 json_body = Some (TokenJson (Some ''tok'') (Some 3600) None None)\<rparr>)
         else (5, Responded \<lparr>status = code,
                 json_body = Some (DocJson \<lparr>doc_id = None, doc_name = None,
                                            doc_fields = None\<rparr>)\<rparr>)),
      sign = (\<lambda>key payload. Some ''jwt'')\<rparr>"

definition failing_after :: "nat \<Rightarrow> env" where
  "failing_after n =
     \<lparr>net = (\<lambda>hist rq.
         if length hist < n then (5, Responded \<lparr>status = 200, json_body = None\<rparr>)
         else (5, Rejected)),
      sign = (\<lambda>key payload. Some ''jwt'')\<rparr>"

definition fresh_world :: world where
  "fresh_world =
     \<lparr>firebaseConfig = Some demo_config, accessToken = None, tokenExpiry = Some 0,
      clock = 1000, sent = []\<rparr>"

definition cached_world :: world where
  "cached_world =
     \<lparr>firebaseConfig = Some demo_config, accessToken = Some ''tok'',
      tokenExpiry = Some 3541000, clock = 2000, sent = []\<rparr>"

definition user_ref :: DocumentRef where
  "user_ref = \<lparr>ref_collection = ''users'', ref_id = ''ann''\<rparr>"

section \<open>Properties of the value codec\<close>

lemma put_prop_fresh: "k \<notin> fst ` set ps \<Longrightarrow> put_prop ps k v = ps @ [(k, v)]"
  by (induction ps) auto

lemma set_prop_fresh:
  "k \<noteq> ''__proto__'' \<Longrightarrow> k \<notin> fst ` set ps \<Longrightarrow> set_prop ps k v = ps @ [(k, v)]"
  by (simp add: set_prop_def put_prop_fresh)

text \<open>
  On an object (distinct keys) without the key \<^verbatim>\<open>__proto__\<close> the loop of
  \<^verbatim>\<open>objectToDoc\<close> encodes entry by entry and keeps the order.
\<close>

lemma objectToDoc_loop_distinct:
  "distinct (map fst kvs) \<Longrightarrow> ''__proto__'' \<notin> fst ` set kvs \<Longrightarrow>
   fst ` set kvs \<inter> fst ` set acc = {} \<Longrightarrow>
   objectToDoc_loop kvs acc = acc @ map (\<lambda>(k, v). (k, toFirestoreValue v)) kvs"
proof (induction kvs arbitrary: acc)
  case Nil
  then show ?case by simp
next
  case (Cons kv kvs)
  obtain k v where kv: "kv = (k, v)" by (cases kv)
  from Cons.prems have fresh: "k \<notin> fst ` set acc" and plain: "k \<noteq> ''__proto__''"
    by (auto simp: kv)
  have "fst ` set kvs \<inter> fst ` set (acc @ [(k, toFirestoreValue v)]) = {}"
    using Cons.prems by (auto simp: kv)
  with Cons.IH [of "acc @ [(k, toFirestoreValue v)]"] Cons.prems
  show ?case by (simp add: kv set_prop_fresh [OF plain fresh])
qed

lemma docToObject_loop_distinct:
  "distinct (map fst kvs) \<Longrightarrow> ''__proto__'' \<notin> fst ` set kvs \<Longrightarrow>
   fst ` set kvs \<inter> fst ` set acc = {} \<Longrightarrow>
   docToObject_loop kvs acc = acc @ map (\<lambda>(k, v). (k, parseFirestoreValue v)) kvs"
proof (induction kvs arbitrary: acc)
  case Nil
  then show ?case by simp
next
  case (Cons kv kvs)
  obtain k v where kv: "kv = (k, v)" by (cases kv)
  from Cons.prems have fresh: "k \<notin> fst ` set acc" and plain: "k \<noteq> ''__proto__''"
    by (auto simp: kv)
  have "fst ` set kvs \<inter> fst ` set (acc @ [(k, parseFirestoreValue v)]) = {}"
    using Cons.prems by (auto simp: kv)
  with Cons.IH [of "acc @ [(k, parseFirestoreValue v)]"] Cons.prems
  show ?case by (simp add: kv set_prop_fresh [OF plain fresh])
qed

text \<open>Unfolding rules that evaluate the number conversions on numerals.\<close>

lemmas number_eval =
  Number_toString_def pos_toString_def shortest_def round_double_def Let_def nbits.simps
  digits10.simps digit_char_def parseInt_def is_white_def is_digit_def digit_val_def
  radix_val_def is_double_def

lemma Number_toString_42: "Number_toString 42 = ''42''"
  by (simp add: number_eval)

subsection \<open>Integers through \<^verbatim>\<open>String\<close> and \<^verbatim>\<open>parseInt\<close>\<close>

text \<open>
  An integer-valued double of magnitude below \<open>10^21\<close> is printed in plain digits and
  read back unchanged; below \<open>2^53\<close> the digits are those of the integer itself.
\<close>

lemma nbits_bounds: "0 < n \<Longrightarrow> 2 ^ (nbits n - 1) \<le> n \<and> n < 2 ^ nbits n"
proof (induction n rule: nbits.induct)
  case (1 n)
  show ?case
  proof (cases "n div 2 = 0")
    case True
    with "1.prems" have "n = 1" by (simp add: div_eq_0_iff)
    then show ?thesis by (simp add: nbits.simps)
  next
    case False
    with "1.IH" "1.prems" have IH: "2 ^ (nbits (n div 2) - 1) \<le> n div 2" "n div 2 < 2 ^ nbits (n div 2)"
      by auto
    have pos: "0 < nbits (n div 2)" using False by (simp add: nbits.simps)
    have eq: "nbits n = Suc (nbits (n div 2))" using "1.prems" by (subst nbits.simps) simp
    have a: "2 ^ (nbits n - 1) \<le> n"
    proof -
      have "(2::nat) ^ (nbits n - 1) = 2 * 2 ^ (nbits (n div 2) - 1)"
        using pos eq by (cases "nbits (n div 2)") simp_all
      also have "\<dots> \<le> 2 * (n div 2)" using IH(1) by simp
      also have "\<dots> \<le> n" by simp
      finally show ?thesis .
    qed
    have b: "n < 2 ^ nbits n"
    proof -
      have "n < 2 * (n div 2 + 1)" by arith
      also have "\<dots> \<le> 2 * 2 ^ nbits (n div 2)" using IH(2) by simp
      finally show ?thesis by (simp add: eq)
    qed
    from a b show ?thesis ..
  qed
qed

lemma round_down_ge:
  fixes a m :: nat
  assumes "a \<le> m" and "2 ^ e dvd a"
  shows "a \<le> (m div 2 ^ e) * 2 ^ e"
proof -
  from assms(2) have "a = (a div 2 ^ e) * 2 ^ e" by simp
  also have "\<dots> \<le> (m div 2 ^ e) * 2 ^ e"
    using assms(1) by (simp add: div_le_mono)
  finally show ?thesis .
qed

lemma round_double_ge_floor:
  assumes "round_double m = Some v" and "2 ^ 53 \<le> m"
  shows "(m div 2 ^ (nbits m - 53)) * 2 ^ (nbits m - 53) \<le> v"
  using assms by (auto simp: round_double_def Let_def split: if_splits)

lemma round_double_ge_pow:
  assumes "round_double m = Some v" and "2 ^ 53 \<le> m"
  shows "2 ^ (nbits m - 1) \<le> v"
proof -
  from assms(2) have pos: "0 < m" by simp
  from nbits_bounds [OF pos] have lo: "2 ^ (nbits m - 1) \<le> m" and hi: "m < 2 ^ nbits m" by simp_all
  have "nbits m - 53 \<le> nbits m - 1" by simp
  then have "(2::nat) ^ (nbits m - 53) dvd 2 ^ (nbits m - 1)" by (rule le_imp_power_dvd)
  from round_down_ge [OF lo this] round_double_ge_floor [OF assms] show ?thesis by simp
qed

lemma nbits_ge: "2 ^ k \<le> m \<Longrightarrow> k < nbits m"
proof -
  assume a: "2 ^ k \<le> m"
  then have "0 < m" by (cases m) auto
  from nbits_bounds [OF this] have "m < 2 ^ nbits m" by simp
  with a have "(2::nat) ^ k < 2 ^ nbits m" by (rule le_less_trans)
  then show ?thesis by simp
qed


lemma round_double_ge_1e21:
  assumes "round_double m = Some v" and "10 ^ 21 \<le> m"
  shows "10 ^ 21 \<le> v"
proof -
  have "(2::nat) ^ 69 \<le> 10 ^ 21" by simp
  with assms(2) have p69: "2 ^ 69 \<le> m" by simp
  then have big: "2 ^ 53 \<le> m" by simp
  from nbits_ge [OF p69] have n70: "70 \<le> nbits m" by simp
  show ?thesis
  proof (cases "nbits m = 70")
    case True
    have "(2::nat) ^ 17 dvd 10 ^ 21" by simp
    from round_down_ge [OF assms(2) this] round_double_ge_floor [OF assms(1) big] True
    show ?thesis by simp
  next
    case False
    with n70 have "70 \<le> nbits m - 1" by simp
    then have "(2::nat) ^ 70 \<le> 2 ^ (nbits m - 1)" by (rule power_increasing) simp
    moreover have "(10::nat) ^ 21 \<le> 2 ^ 70" by simp
    ultimately show ?thesis using round_double_ge_pow [OF assms(1) big] by simp
  qed
qed


lemma lt10_cases:
  "d < 10 \<Longrightarrow> d \<in> {0, 1, 2, 3, 4, 5, 6, 7, 8, 9::nat}"
  by auto

lemma digit_val_digit_char: "d < 10 \<Longrightarrow> digit_val (digit_char d) = Some d"
  by (drule lt10_cases) (auto simp: digit_val_def digit_char_def)

lemma digit_char_plain:
  "d < 10 \<Longrightarrow> \<not> is_white (digit_char d) \<and> digit_char d \<noteq> CHR ''+'' \<and>
     digit_char d \<noteq> CHR ''-'' \<and> digit_char d \<noteq> CHR ''x'' \<and> digit_char d \<noteq> CHR ''X''"
  by (drule lt10_cases) (auto simp: is_white_def digit_char_def)

lemma digits10_dec: "c \<in> set (digits10 n) \<Longrightarrow> dec_digit c"
proof (induction n arbitrary: c rule: digits10.induct)
  case (1 n)
  show ?case
  proof (cases "n < 10")
    case True
    with "1.prems" show ?thesis by (subst (asm) digits10.simps) (auto simp: dec_digit_def)
  next
    case False
    with "1.prems" have "c \<in> set (digits10 (n div 10)) \<or> c = digit_char (n mod 10)"
      by (subst (asm) digits10.simps) auto
    moreover have "dec_digit (digit_char (n mod 10))"
      unfolding dec_digit_def by (rule exI [of _ "n mod 10"]) simp
    ultimately show ?thesis using "1.IH" False by auto
  qed
qed

lemma digits10_nonempty: "digits10 n \<noteq> []"
  by (subst digits10.simps) simp

lemma dec_digit_val: "dec_digit c \<Longrightarrow> \<exists>d<10. digit_val c = Some d"
  by (auto simp: dec_digit_def digit_val_digit_char)

lemma dec_digit_zero: "dec_digit (CHR ''0'')"
  unfolding dec_digit_def by (rule exI [of _ 0]) (simp add: digit_char_def)

lemma radix_val_snoc:
  "radix_val R (Z @ [c]) = radix_val R Z * R + (case digit_val c of None \<Rightarrow> 0 | Some d \<Rightarrow> d)"
  by (simp add: radix_val_def)

lemma radix_val_digits10: "radix_val 10 (digits10 n) = n"
proof (induction n rule: digits10.induct)
  case (1 n)
  show ?case
  proof (cases "n < 10")
    case True
    then show ?thesis
      by (subst digits10.simps) (simp add: radix_val_def digit_val_digit_char)
  next
    case False
    with "1.IH" have "radix_val 10 (digits10 (n div 10)) = n div 10" by simp
    with False show ?thesis
      by (subst digits10.simps) (simp add: radix_val_snoc digit_val_digit_char)
  qed
qed

lemma radix_val_zeros:
  "radix_val 10 (Z @ replicate j (CHR ''0'')) = radix_val 10 Z * 10 ^ j"
proof (induction j)
  case 0
  then show ?case by simp
next
  case (Suc j)
  have "Z @ replicate (Suc j) (CHR ''0'') = (Z @ replicate j (CHR ''0'')) @ [CHR ''0'']"
    by (simp add: replicate_append_same)
  then show ?case
    using Suc by (simp only: radix_val_snoc) (simp add: digit_val_def)
qed

lemma digits10_lower: "0 < n \<Longrightarrow> 10 ^ (length (digits10 n) - 1) \<le> n"
proof (induction n rule: digits10.induct)
  case (1 n)
  show ?case
  proof (cases "n < 10")
    case True
    with "1.prems" show ?thesis by (subst digits10.simps) simp
  next
    case False
    then have pos: "0 < n div 10" by simp
    with "1.IH" False have IH: "10 ^ (length (digits10 (n div 10)) - 1) \<le> n div 10" by simp
    have len: "length (digits10 n) = Suc (length (digits10 (n div 10)))"
      using False by (subst digits10.simps) simp
    have "0 < length (digits10 (n div 10))" using digits10_nonempty by simp
    then have "(10::nat) ^ (length (digits10 n) - 1) = 10 * 10 ^ (length (digits10 (n div 10)) - 1)"
      by (cases "length (digits10 (n div 10))") (simp_all add: len)
    also have "\<dots> \<le> 10 * (n div 10)" using IH by simp
    also have "\<dots> \<le> n" by simp
    finally show ?thesis .
  qed
qed

text \<open>The result of the search rounds to the number, and is positive.\<close>

lemma shortest_from_rounds:
  "round_double x = Some x \<Longrightarrow> shortest_from x j = (s, j') \<Longrightarrow>
   round_double (s * 10 ^ j') = Some x"
proof (induction j)
  case 0
  then show ?case by simp
next
  case (Suc j)
  then show ?case
    by (auto simp add: Let_def split: if_splits)
qed

lemma shortest_from_pos:
  "0 < x \<Longrightarrow> shortest_from x j = (s, j') \<Longrightarrow> 0 < s"
proof (induction j)
  case 0
  then show ?case by simp
next
  case (Suc j)
  then show ?case
    by (auto simp add: Let_def split: if_splits)
qed


lemma dec_digit_plain:
  "dec_digit c \<Longrightarrow> \<not> is_white c \<and> c \<noteq> CHR ''+'' \<and> c \<noteq> CHR ''-'' \<and>
     c \<noteq> CHR ''x'' \<and> c \<noteq> CHR ''X'' \<and> is_digit 10 c"
  by (auto simp: dec_digit_def is_digit_def digit_val_digit_char dest: digit_char_plain)

lemma no_hex_prefix:
  assumes "\<forall>c\<in>set S. dec_digit c"
  shows "take 2 S \<noteq> ''0x'' \<and> take 2 S \<noteq> ''0X''"
proof (cases S)
  case Nil
  then show ?thesis by simp
next
  case (Cons a S')
  show ?thesis
  proof (cases S')
    case Nil
    with Cons show ?thesis by simp
  next
    case (Cons b S'')
    with assms \<open>S = a # S'\<close> have "dec_digit b" by simp
    then have "b \<noteq> CHR ''x'' \<and> b \<noteq> CHR ''X''" by (simp add: dec_digit_plain)
    with Cons \<open>S = a # S'\<close> show ?thesis by simp
  qed
qed

lemma takeWhile_digits:
  "\<forall>c\<in>set S. dec_digit c \<Longrightarrow> takeWhile (is_digit 10) S = S"
  by (simp add: dec_digit_plain)

lemma parseInt_decimal:
  assumes "S \<noteq> []" and all: "\<forall>c\<in>set S. dec_digit c"
  shows "parseInt S =
           (case round_double (radix_val 10 S) of None \<Rightarrow> PosInf | Some v \<Rightarrow> IntNum (int v))"
proof -
  from assms obtain c cs where S: "S = c # cs" by (cases S) auto
  with all have c: "dec_digit c" by simp
  have drop: "dropWhile is_white S = S" using c S by (simp add: dec_digit_plain)
  have sign: "hd S \<noteq> CHR ''-''" "hd S \<noteq> CHR ''+''" using c S by (simp_all add: dec_digit_plain)
  have hex: "(take 2 S = ''0x'' \<or> take 2 S = ''0X'') = False"
    using no_hex_prefix [OF all] by simp
  show ?thesis
    using sign \<open>S \<noteq> []\<close>
    by (simp add: parseInt_def drop Let_def hex takeWhile_digits [OF all]
        split: option.splits)
qed

lemma parseInt_minus_decimal:
  assumes "S \<noteq> []" and all: "\<forall>c\<in>set S. dec_digit c"
  shows "parseInt (CHR ''-'' # S) =
           (case round_double (radix_val 10 S) of None \<Rightarrow> NegInf | Some v \<Rightarrow> IntNum (- int v))"
proof -
  have nw: "\<not> is_white (CHR ''-'')"
    by (simp add: is_white_def)
  have hex: "(take 2 S = ''0x'' \<or> take 2 S = ''0X'') = False"
    using no_hex_prefix [OF all] by simp
  show ?thesis
    using \<open>S \<noteq> []\<close>
    by (simp add: parseInt_def nw Let_def hex takeWhile_digits [OF all]
        split: option.splits)
qed

lemma pos_toString_plain:
  assumes pos: "0 < x" and dbl: "round_double x = Some x" and small: "x < 10 ^ 21"
  shows "\<exists>s j. pos_toString x = digits10 s @ replicate j (CHR ''0'') \<and>
               round_double (s * 10 ^ j) = Some x"
proof -
  obtain s j where sh: "shortest x = (s, j)" by (cases "shortest x")
  then have sf: "shortest_from x (length (digits10 x)) = (s, j)" by (simp add: shortest_def)
  from shortest_from_rounds [OF dbl sf] have rounds: "round_double (s * 10 ^ j) = Some x" .
  from shortest_from_pos [OF pos sf] have spos: "0 < s" .
  have n: "j + length (digits10 s) \<le> 21"
  proof (rule ccontr)
    assume "\<not> j + length (digits10 s) \<le> 21"
    then have "21 \<le> j + (length (digits10 s) - 1)" by simp
    then have "(10::nat) ^ 21 \<le> 10 ^ (j + (length (digits10 s) - 1))"
      by (rule power_increasing) simp
    also have "\<dots> = 10 ^ (length (digits10 s) - 1) * 10 ^ j" by (simp add: power_add)
    also have "\<dots> \<le> s * 10 ^ j" using digits10_lower [OF spos] by simp
    finally have "10 ^ 21 \<le> s * 10 ^ j" .
    from round_double_ge_1e21 [OF rounds this] small show False by simp
  qed
  have "pos_toString x = digits10 s @ replicate j (CHR ''0'')"
    using n by (simp add: pos_toString_def sh)
  with rounds show ?thesis by blast
qed

lemma parseInt_pos_toString:
  assumes pos: "0 < x" and dbl: "round_double x = Some x" and small: "x < 10 ^ 21"
  shows "parseInt (pos_toString x) = IntNum (int x)"
    and "parseInt (CHR ''-'' # pos_toString x) = IntNum (- int x)"
proof -
  from pos_toString_plain [OF assms] obtain s j
    where str: "pos_toString x = digits10 s @ replicate j (CHR ''0'')"
      and rounds: "round_double (s * 10 ^ j) = Some x" by blast
  have ne: "pos_toString x \<noteq> []" by (simp add: str digits10_nonempty)
  have all: "\<forall>c\<in>set (pos_toString x). dec_digit c"
    by (auto simp: str dec_digit_zero dest: digits10_dec)
  have val: "radix_val 10 (pos_toString x) = s * 10 ^ j"
    by (simp add: str radix_val_zeros radix_val_digits10)
  show "parseInt (pos_toString x) = IntNum (int x)"
    by (simp add: parseInt_decimal [OF ne all] val rounds)
  show "parseInt (CHR ''-'' # pos_toString x) = IntNum (- int x)"
    by (simp add: parseInt_minus_decimal [OF ne all] val rounds)
qed

lemma parseInt_Number_toString:
  assumes "is_double i" and "\<bar>i\<bar> < 10 ^ 21"
  shows "parseInt (Number_toString i) = IntNum i"
proof -
  consider "i = 0" | "0 < i" | "i < 0" by linarith
  then show ?thesis
  proof cases
    case 1
    then show ?thesis by (simp add: number_eval)
  next
    case 2
    with assms have "0 < nat i" "round_double (nat i) = Some (nat i)" "nat i < 10 ^ 21"
      by (simp_all add: is_double_def nat_less_iff)
    from parseInt_pos_toString(1) [OF this] 2 show ?thesis
      by (simp add: Number_toString_def)
  next
    case 3
    with assms have "0 < nat (- i)" "round_double (nat (- i)) = Some (nat (- i))"
      "nat (- i) < 10 ^ 21"
      by (simp_all add: is_double_def nat_less_iff)
    from parseInt_pos_toString(2) [OF this] 3 show ?thesis
      by (simp add: Number_toString_def)
  qed
qed






text \<open>
  The round trip of the codec on the restorable values: this is what holds of claim
  C1 on the code. The bound \<open>10^21\<close> on the integers cannot be dropped, as the run at
  \<^verbatim>\<open>1e21\<close> further down shows.
\<close>

lemma roundtrip_restorable:
  "restorable v \<Longrightarrow> parseFirestoreValue (toFirestoreValue v) = v"
proof (induction v rule: restorable.induct)
  case (4 i)
  then show ?case by (simp add: parseInt_Number_toString)
next
  case (6 xs)
  then show ?case by (simp add: map_idI)
next
  case (7 kvs)
  then have dist: "distinct (map fst kvs)" and plain: "''__proto__'' \<notin> fst ` set kvs"
    by simp_all
  have enc: "objectToDoc_loop kvs [] = map (\<lambda>(k, v). (k, toFirestoreValue v)) kvs"
    using objectToDoc_loop_distinct [OF dist plain, of "[]"] by simp
  have keys: "map fst (map (\<lambda>(k, v). (k, toFirestoreValue v)) kvs) = map fst kvs"
    by (induction kvs) auto
  have dec: "docToObject_loop (map (\<lambda>(k, v). (k, toFirestoreValue v)) kvs) [] =
               map (\<lambda>(k, v). (k, parseFirestoreValue v)) (map (\<lambda>(k, v). (k, toFirestoreValue v)) kvs)"
  proof -
    have d: "distinct (map fst (map (\<lambda>(k, v). (k, toFirestoreValue v)) kvs))"
      unfolding keys by (rule dist)
    have "fst ` set (map (\<lambda>(k, v). (k, toFirestoreValue v)) kvs) = fst ` set kvs"
      by force
    with plain have "''__proto__'' \<notin> fst ` set (map (\<lambda>(k, v). (k, toFirestoreValue v)) kvs)"
      by simp
    from docToObject_loop_distinct [OF d this, of "[]"] show ?thesis by simp
  qed
  have "map (\<lambda>(k, v). (k, parseFirestoreValue v)) (map (\<lambda>(k, v). (k, toFirestoreValue v)) kvs) = kvs"
    using 7 by (auto intro!: map_idI)
  with enc dec show ?case by simp
qed simp_all





text \<open>
  Claim C1, at the input \<^verbatim>\<open>1e21\<close>. The number \<open>10^21\<close> is a double and an integer, so
  it takes the integer tag; \<^verbatim>\<open>String(1e21)\<close> is \<^verbatim>\<open>"1e+21"\<close>, and \<^verbatim>\<open>parseInt\<close> stops
  at the \<^verbatim>\<open>e\<close>: decoding the encoding gives \<^verbatim>\<open>1\<close>.
\<close>

theorem big_integer_not_restored:
  "is_double (10 ^ 21) \<and>
   toFirestoreValue (Num (IntNum (10 ^ 21))) = IntegerValue ''1e+21'' \<and>
   parseFirestoreValue (toFirestoreValue (Num (IntNum (10 ^ 21)))) = Num (IntNum 1)"
  by (simp add: number_eval)

section \<open>Properties of the document client\<close>

lemma fetch_Responded:
  "net E (sent w) rq = (dt, Responded resp) \<Longrightarrow>
   fetch E rq w = (Inr resp, w\<lparr>sent := sent w @ [rq], clock := clock w + int dt\<rparr>)"
  by (simp add: fetch_def)

lemma fetch_eq:
  "fetch E rq w =
     (case snd (net E (sent w) rq) of Rejected \<Rightarrow> Inl TypeError | Responded r \<Rightarrow> Inr r,
      w\<lparr>sent := sent w @ [rq], clock := clock w + int (fst (net E (sent w) rq))\<rparr>)"
  by (simp add: fetch_def split: prod.splits fetch_result.splits)

lemma fetch_answered:
  "snd (net E (sent w) rq) \<noteq> Rejected \<Longrightarrow> \<exists>resp w2. fetch E rq w = (Inr resp, w2)"
  by (cases "net E (sent w) rq"; cases "snd (net E (sent w) rq)") (auto simp: fetch_def)

lemma world_after_fetch:
  "snd (fetch E rq w) =
     w\<lparr>sent := sent w @ [rq], clock := clock w + int (fst (net E (sent w) rq))\<rparr>"
  by (simp add: fetch_eq)

text \<open>
  Once the token is there and the configuration is set, each operation is one
  \<^verbatim>\<open>fetch\<close> followed by what it does with the response.
\<close>

lemma set_unfold:
  assumes "getAccessToken E w = (Inr token, w1)" and "firebaseConfig w1 = Some c"
  shows "DocumentRef_set E r obj options w =
    (case fetch E (set_request c token r obj options) w1 of
       (Inl e, w2) \<Rightarrow> (Inl e, w2)
     | (Inr response, w2) \<Rightarrow> (Inr (), w2))"
  using assms by (simp add: DocumentRef_set_def getFirestoreUrl_def)

lemma update_unfold:
  assumes "getAccessToken E w = (Inr token, w1)" and "firebaseConfig w1 = Some c"
  shows "DocumentRef_update E r obj w =
    (case fetch E (update_request c token r obj) w1 of
       (Inl e, w2) \<Rightarrow> (Inl e, w2)
     | (Inr response, w2) \<Rightarrow> (Inr (), w2))"
  using assms by (simp add: DocumentRef_update_def getFirestoreUrl_def)

lemma delete_unfold:
  assumes "getAccessToken E w = (Inr token, w1)" and "firebaseConfig w1 = Some c"
  shows "DocumentRef_delete E r w =
    (case fetch E (delete_request c token r) w1 of
       (Inl e, w2) \<Rightarrow> (Inl e, w2)
     | (Inr response, w2) \<Rightarrow> (Inr (), w2))"
  using assms by (simp add: DocumentRef_delete_def getFirestoreUrl_def)

lemma get_unfold:
  assumes "getAccessToken E w = (Inr token, w1)" and "firebaseConfig w1 = Some c"
  shows "DocumentRef_get E r w =
    (case fetch E (get_request c token r) w1 of
       (Inl e, w2) \<Rightarrow> (Inl e, w2)
     | (Inr response, w2) \<Rightarrow>
         if status response = 404 then
           (Inr (new_DocumentSnapshot
                   \<lparr>doc_id = Some (ref_id r), doc_name = None, doc_fields = None\<rparr>
                   (ref_collection r)), w2)
         else
           (case response_json response of
              Inl e \<Rightarrow> (Inl e, w2)
            | Inr data \<Rightarrow>
                (Inr (new_DocumentSnapshot (spread_under_id (ref_id r) data)
                        (ref_collection r)), w2)))"
  using assms by (simp add: DocumentRef_get_def getFirestoreUrl_def)

lemma add_unfold:
  assumes "getAccessToken E w = (Inr token, w1)" and "firebaseConfig w1 = Some c"
  shows "CollectionRef_add E name data w =
    (case fetch E (add_request c token name data) w1 of
       (Inl e, w2) \<Rightarrow> (Inl e, w2)
     | (Inr response, w2) \<Rightarrow>
         (case response_json response of
            Inl e \<Rightarrow> (Inl e, w2)
          | Inr result \<Rightarrow>
              (Inr (case json_name result of None \<Rightarrow> None | Some n \<Rightarrow> Some (last_segment n)),
               w2)))"
  using assms by (simp add: CollectionRef_add_def getFirestoreUrl_def)

lemma world_after_get:
  assumes "getAccessToken E w = (Inr token, w1)" and "firebaseConfig w1 = Some c"
  shows "snd (DocumentRef_get E r w) = snd (fetch E (get_request c token r) w1)"
  unfolding get_unfold [OF assms] fetch_eq
  by (simp add: response_json_def split: fetch_result.splits option.splits)

lemma world_after_set:
  assumes "getAccessToken E w = (Inr token, w1)" and "firebaseConfig w1 = Some c"
  shows "snd (DocumentRef_set E r obj options w) =
         snd (fetch E (set_request c token r obj options) w1)"
  unfolding set_unfold [OF assms] fetch_eq
  by (simp split: fetch_result.splits)

lemma world_after_update:
  assumes "getAccessToken E w = (Inr token, w1)" and "firebaseConfig w1 = Some c"
  shows "snd (DocumentRef_update E r obj w) = snd (fetch E (update_request c token r obj) w1)"
  unfolding update_unfold [OF assms] fetch_eq
  by (simp split: fetch_result.splits)

lemma world_after_delete:
  assumes "getAccessToken E w = (Inr token, w1)" and "firebaseConfig w1 = Some c"
  shows "snd (DocumentRef_delete E r w) = snd (fetch E (delete_request c token r) w1)"
  unfolding delete_unfold [OF assms] fetch_eq
  by (simp split: fetch_result.splits)

lemma world_after_add:
  assumes "getAccessToken E w = (Inr token, w1)" and "firebaseConfig w1 = Some c"
  shows "snd (CollectionRef_add E name data w) = snd (fetch E (add_request c token name data) w1)"
  unfolding add_unfold [OF assms] fetch_eq
  by (simp add: response_json_def split: fetch_result.splits option.splits)

lemmas fixtures =
  server_def cached_world_def fresh_world_def demo_config_def user_ref_def failing_after_def

lemma cached_token: "getAccessToken E cached_world = (Inr (Some ''tok''), cached_world)"
  by (simp add: getAccessToken_def truthy_def cached_world_def)

lemma cached_config: "firebaseConfig cached_world = Some demo_config"
  by (simp add: cached_world_def)

lemma cached_fields:
  "sent cached_world = []" "clock cached_world = 2000"
  "accessToken cached_world = Some ''tok''" "tokenExpiry cached_world = Some 3541000"
  by (simp_all add: cached_world_def)

text \<open>
  Claim C3. When the store answers the \<^verbatim>\<open>GET\<close> of a document with status 404,
  \<^verbatim>\<open>get\<close> resolves (it does not throw) with a snapshot whose \<^verbatim>\<open>exists\<close> is false and
  whose document carries no fields: \<^verbatim>\<open>data()\<close> is \<^verbatim>\<open>null\<close>.
\<close>

theorem get_404:
  assumes "getAccessToken E w = (Inr token, w1)"
    and "getFirestoreUrl w1 (doc_path r) = Inr url"
    and "net E (sent w1) \<lparr>req_method = ''GET'', req_url = url,
           req_headers = [bearer token], req_body = None\<rparr> = (dt, Responded resp)"
    and "status resp = 404"
  shows "\<exists>snap w2. DocumentRef_get E r w = (Inr snap, w2) \<and>
           \<not> snap_exists snap \<and> doc_fields (snap_doc snap) = None \<and>
           snap_data snap = Null \<and> snap_collection snap = ref_collection r \<and>
           snap_id snap = (if ref_id r = [] then None else Some (ref_id r))"
  using assms
  by (simp add: DocumentRef_get_def fetch_Responded new_DocumentSnapshot_def snap_data_def
      docToObject_def truthy_def)

theorem get_404_witness:
  "\<exists>snap w2. DocumentRef_get (server 404) user_ref cached_world = (Inr snap, w2) \<and>
           \<not> snap_exists snap \<and> doc_fields (snap_doc snap) = None \<and>
           snap_data snap = Null \<and> snap_collection snap = ref_collection user_ref \<and>
           snap_id snap = (if ref_id user_ref = [] then None else Some (ref_id user_ref))"
proof (rule get_404)
  show "getAccessToken (server 404) cached_world = (Inr (Some ''tok''), cached_world)"
    by (simp add: getAccessToken_def truthy_def cached_world_def)
  show "getFirestoreUrl cached_world (doc_path user_ref) =
          Inr ''https://firestore.googleapis.com/v1/projects/demo/databases/(default)/documents/users/ann''"
    by (simp add: getFirestoreUrl_def fixtures doc_path_def)
  show "net (server 404) (sent cached_world)
          \<lparr>req_method = ''GET'',
             req_url = ''https://firestore.googleapis.com/v1/projects/demo/databases/(default)/documents/users/ann'',
             req_headers = [bearer (Some ''tok'')], req_body = None\<rparr> =
        (5, Responded \<lparr>status = 404,
               json_body = Some (DocJson \<lparr>doc_id = None, doc_name = None,
                                          doc_fields = None\<rparr>)\<rparr>)"
    by (simp add: server_def)
  show "status \<lparr>status = 404,
               json_body = Some (DocJson \<lparr>doc_id = None, doc_name = None,
                                          doc_fields = None\<rparr>)\<rparr> = 404" by simp
qed

text \<open>
  Claim C4, as stated, at a concrete run: the store answers the \<^verbatim>\<open>PATCH\<close> of
  \<^verbatim>\<open>update\<close> with status 404 and \<^verbatim>\<open>update\<close> resolves.
\<close>

theorem update_missing_counterexample:
  "fst (DocumentRef_update (server 404) user_ref [(''credits'', Num (IntNum 5))] cached_world)
     = Inr ()"
  by (simp add: DocumentRef_update_def getAccessToken_def truthy_def getFirestoreUrl_def
      fetch_def fixtures)



text \<open>
  Claim C4, amended. No document operation looks at the status of a response, except
  for the 404 of \<^verbatim>\<open>get\<close>. Once the token is obtained and whenever the store answers,
  \<^verbatim>\<open>set\<close>, \<^verbatim>\<open>update\<close> and \<^verbatim>\<open>delete\<close> resolve, whatever the status; \<^verbatim>\<open>get\<close> on a
  status other than 404 resolves with a snapshot built from the JSON body, and rejects
  only when the body is not JSON.
\<close>

theorem status_not_inspected:
  assumes tok: "getAccessToken E w = (Inr token, w1)"
    and cfg: "firebaseConfig w1 = Some c"
    and answers: "\<forall>rq. snd (net E (sent w1) rq) \<noteq> Rejected"
  shows "fst (DocumentRef_set E r obj options w) = Inr () \<and>
         fst (DocumentRef_update E r obj w) = Inr () \<and>
         fst (DocumentRef_delete E r w) = Inr () \<and>
         fst (DocumentRef_get E r w) =
           (case snd (net E (sent w1) (get_request c token r)) of
              Rejected \<Rightarrow> Inl TypeError
            | Responded resp \<Rightarrow>
                if status resp = 404 then
                  Inr (new_DocumentSnapshot
                         \<lparr>doc_id = Some (ref_id r), doc_name = None, doc_fields = None\<rparr>
                         (ref_collection r))
                else (case json_body resp of
                        None \<Rightarrow> Inl SyntaxError
                      | Some data \<Rightarrow>
                          Inr (new_DocumentSnapshot (spread_under_id (ref_id r) data)
                                 (ref_collection r))))"
proof (intro conjI)
  obtain resp w2 where "fetch E (set_request c token r obj options) w1 = (Inr resp, w2)"
    using fetch_answered answers by blast
  then show "fst (DocumentRef_set E r obj options w) = Inr ()"
    by (simp add: set_unfold [OF tok cfg])
next
  obtain resp w2 where "fetch E (update_request c token r obj) w1 = (Inr resp, w2)"
    using fetch_answered answers by blast
  then show "fst (DocumentRef_update E r obj w) = Inr ()"
    by (simp add: update_unfold [OF tok cfg])
next
  obtain resp w2 where "fetch E (delete_request c token r) w1 = (Inr resp, w2)"
    using fetch_answered answers by blast
  then show "fst (DocumentRef_delete E r w) = Inr ()"
    by (simp add: delete_unfold [OF tok cfg])
next
  show "fst (DocumentRef_get E r w) =
           (case snd (net E (sent w1) (get_request c token r)) of
              Rejected \<Rightarrow> Inl TypeError
            | Responded resp \<Rightarrow>
                if status resp = 404 then
                  Inr (new_DocumentSnapshot
                         \<lparr>doc_id = Some (ref_id r), doc_name = None, doc_fields = None\<rparr>
                         (ref_collection r))
                else (case json_body resp of
                        None \<Rightarrow> Inl SyntaxError
                      | Some data \<Rightarrow>
                          Inr (new_DocumentSnapshot (spread_under_id (ref_id r) data)
                                 (ref_collection r))))"
    by (simp add: get_unfold [OF tok cfg] fetch_eq response_json_def
        split: fetch_result.splits option.splits)
qed

theorem status_not_inspected_witness:
  "fst (DocumentRef_set (server 500) user_ref [(''credits'', Num (IntNum 5))]
          \<lparr>merge = Some True\<rparr> cached_world) = Inr () \<and>
   fst (DocumentRef_update (server 500) user_ref [(''credits'', Num (IntNum 5))] cached_world)
     = Inr () \<and>
   fst (DocumentRef_delete (server 500) user_ref cached_world) = Inr () \<and>
   fst (DocumentRef_get (server 500) user_ref cached_world) =
     Inr (new_DocumentSnapshot \<lparr>doc_id = Some ''ann'', doc_name = None, doc_fields = None\<rparr>
            ''users'')"
proof -
  have answers: "\<forall>rq. snd (net (server 500) (sent cached_world) rq) \<noteq> Rejected"
    by (simp add: server_def)
  show ?thesis
    using status_not_inspected [OF cached_token cached_config answers,
        of user_ref "[(''credits'', Num (IntNum 5))]" "\<lparr>merge = Some True\<rparr>"]
    by (simp add: server_def user_ref_def cached_world_def)
qed

text \<open>
  Claim C9, as stated, at a concrete run: the store answers 401, and \<^verbatim>\<open>update\<close>
  resolves after a single request.
\<close>

theorem unauthorized_counterexample:
  "fst (DocumentRef_update (server 401) user_ref [(''credits'', Num (IntNum 5))] cached_world)
     = Inr () \<and>
   length (sent (snd (DocumentRef_update (server 401) user_ref [(''credits'', Num (IntNum 5))]
                        cached_world))) = 1"
proof -
  have "sent cached_world = []" by (simp add: cached_world_def)
  then show ?thesis
    unfolding update_unfold [OF cached_token cached_config] fetch_eq
    by (simp add: server_def)
qed

text \<open>
  Claim C9, amended. Every document operation (get, set, update, delete, add) sends,
  after the token has been obtained from \<^verbatim>\<open>getAccessToken\<close>, exactly one request,
  and the request carries \<^verbatim>\<open>Authorization: Bearer <token>\<close>. Whatever the response,
  401 included, nothing is sent again and the cached token is left as it is.
\<close>

theorem one_request_with_bearer:
  assumes tok: "getAccessToken E w = (Inr token, w1)"
    and cfg: "firebaseConfig w1 = Some c"
  shows "bearer token = (''Authorization'', ''Bearer '' @ interpolate token) \<and>
         sent (snd (DocumentRef_get E r w)) = sent w1 @ [get_request c token r] \<and>
         sent (snd (DocumentRef_set E r obj options w)) =
           sent w1 @ [set_request c token r obj options] \<and>
         sent (snd (DocumentRef_update E r obj w)) = sent w1 @ [update_request c token r obj] \<and>
         sent (snd (DocumentRef_delete E r w)) = sent w1 @ [delete_request c token r] \<and>
         sent (snd (CollectionRef_add E name obj w)) = sent w1 @ [add_request c token name obj] \<and>
         accessToken (snd (DocumentRef_get E r w)) = accessToken w1 \<and>
         accessToken (snd (DocumentRef_set E r obj options w)) = accessToken w1 \<and>
         accessToken (snd (DocumentRef_update E r obj w)) = accessToken w1 \<and>
         accessToken (snd (DocumentRef_delete E r w)) = accessToken w1 \<and>
         accessToken (snd (CollectionRef_add E name obj w)) = accessToken w1"
  unfolding world_after_get [OF tok cfg] world_after_set [OF tok cfg]
    world_after_update [OF tok cfg] world_after_delete [OF tok cfg]
    world_after_add [OF tok cfg] world_after_fetch
  by (simp add: bearer_def)

theorem one_request_with_bearer_witness:
  "sent (snd (DocumentRef_get (server 401) user_ref cached_world)) =
     [get_request demo_config (Some ''tok'') user_ref] \<and>
   sent (snd (DocumentRef_update (server 401) user_ref [(''credits'', Num (IntNum 5))]
                cached_world)) =
     [update_request demo_config (Some ''tok'') user_ref [(''credits'', Num (IntNum 5))]] \<and>
   accessToken (snd (DocumentRef_update (server 401) user_ref [(''credits'', Num (IntNum 5))]
                       cached_world)) = Some ''tok''"
  using one_request_with_bearer [OF cached_token cached_config,
      of "server 401" user_ref "[(''credits'', Num (IntNum 5))]"]
  by (simp add: cached_world_def)

text \<open>
  \<^verbatim>\<open>set\<close> sends one \<^verbatim>\<open>PATCH\<close> whose body is the encoded object. With \<^verbatim>\<open>merge\<close> true
  the URL is the document's URL followed by \<^verbatim>\<open>?\<close> and one
  \<^verbatim>\<open>updateMask.fieldPaths=<key>\<close> for each top-level key of the object, in the order
  of the keys, joined by \<^verbatim>\<open>&\<close>; otherwise it is the document's URL alone. The id and
  the keys are put into the URL as they are, without escaping.
\<close>

lemma set_request_url:
  assumes tok: "getAccessToken E w = (Inr token, w1)"
    and cfg: "firebaseConfig w1 = Some c"
  shows "\<exists>rq. sent (snd (DocumentRef_set E r obj options w)) = sent w1 @ [rq] \<and>
           req_method rq = ''PATCH'' \<and>
           req_body rq = Some (DocBody (objectToDoc obj)) \<and>
           req_url rq =
             (if merge options = Some True
              then documents_url c (doc_path r) @ ''?'' @
                   join ''&'' (map (\<lambda>k. ''updateMask.fieldPaths='' @ k) (map fst obj))
              else documents_url c (doc_path r))"
  unfolding world_after_set [OF tok cfg] world_after_fetch
  by (simp add: updateMask_def comp_def)

lemma set_request_url_example:
  "(\<exists>rq. sent (snd (DocumentRef_set (server 200) user_ref
                      [(''name'', Str ''Ann''), (''credits'', Num (IntNum 5))]
                      \<lparr>merge = Some True\<rparr> cached_world)) = [rq] \<and>
         req_method rq = ''PATCH'' \<and>
         req_url rq = ''https://firestore.googleapis.com/v1/projects/demo/databases/(default)/documents/users/ann?updateMask.fieldPaths=name&updateMask.fieldPaths=credits'') \<and>
   (\<exists>rq. sent (snd (DocumentRef_set (server 200) user_ref
                      [(''name'', Str ''Ann''), (''credits'', Num (IntNum 5))]
                      no_options cached_world)) = [rq] \<and>
         req_method rq = ''PATCH'' \<and>
         req_url rq = ''https://firestore.googleapis.com/v1/projects/demo/databases/(default)/documents/users/ann'')"
  using set_request_url [OF cached_token cached_config, of "server 200" user_ref
      "[(''name'', Str ''Ann''), (''credits'', Num (IntNum 5))]" "\<lparr>merge = Some True\<rparr>"]
    set_request_url [OF cached_token cached_config, of "server 200" user_ref
      "[(''name'', Str ''Ann''), (''credits'', Num (IntNum 5))]" no_options]
  by (auto simp: cached_world_def demo_config_def user_ref_def doc_path_def no_options_def)

text \<open>
  Claim C5, at three concrete calls. The field mask of a request is the list of the
  \<^verbatim>\<open>updateMask.fieldPaths\<close> entries of the query string of its URL, and the query
  string ends at a \<^verbatim>\<open>#\<close>.
  \<^item> \<^verbatim>\<open>doc('ann#').set({name: 'Ann'}, {merge: true})\<close>: the mask follows the \<^verbatim>\<open>#\<close>,
    so the request is a \<^verbatim>\<open>PATCH\<close> of the document \<^verbatim>\<open>ann\<close> with no mask at all.
  \<^item> an object with the single key \<^verbatim>\<open>a&updateMask.fieldPaths=b\<close> gives the very URL of
    an object with the two keys \<^verbatim>\<open>a\<close> and \<^verbatim>\<open>b\<close>: the mask does not list the supplied
    name.
  \<^item> \<^verbatim>\<open>doc('ann?updateMask.fieldPaths=x').set({name: 'Ann'})\<close>, without merge, sends
    a mask with the entry \<^verbatim>\<open>x\<close>.
\<close>

theorem mask_lost_in_url:
  "map req_url (sent (snd (DocumentRef_set (server 200)
       \<lparr>ref_collection = ''users'', ref_id = ''ann#''\<rparr> [(''name'', Str ''Ann'')]
       \<lparr>merge = Some True\<rparr> cached_world))) =
     [''https://firestore.googleapis.com/v1/projects/demo/databases/(default)/documents/users/ann#?updateMask.fieldPaths=name''] \<and>
   map req_url (sent (snd (DocumentRef_set (server 200) user_ref
       [(''a&updateMask.fieldPaths=b'', Num (IntNum 1))] \<lparr>merge = Some True\<rparr> cached_world))) =
   map req_url (sent (snd (DocumentRef_set (server 200) user_ref
       [(''a'', Num (IntNum 1)), (''b'', Num (IntNum 2))] \<lparr>merge = Some True\<rparr> cached_world))) \<and>
   map req_url (sent (snd (DocumentRef_set (server 200)
       \<lparr>ref_collection = ''users'', ref_id = ''ann?updateMask.fieldPaths=x''\<rparr>
       [(''name'', Str ''Ann'')] no_options cached_world))) =
     [''https://firestore.googleapis.com/v1/projects/demo/databases/(default)/documents/users/ann?updateMask.fieldPaths=x'']"
  unfolding world_after_set [OF cached_token cached_config] world_after_fetch
  by (simp add: cached_fields demo_config_def user_ref_def doc_path_def updateMask_def
      no_options_def)

section \<open>Properties of the query builder\<close>

lemma query_unfold:
  assumes "getAccessToken E w = (Inr token, w1)" and "firebaseConfig w1 = Some c"
  shows "snd (QueryRef_get E q w) =
         snd (fetch E \<lparr>req_method = ''POST'',
                 req_url = ''https://firestore.googleapis.com/v1/projects/'' @ projectId c @
                           ''/databases/(default)/documents:runQuery'',
                 req_headers = [bearer token, content_json],
                 req_body = Some (QueryBody (build_structuredQuery q))\<rparr> w1)"
  using assms
  by (simp add: QueryRef_get_def runQuery_url_def fetch_eq response_json_def
      split: fetch_result.splits option.splits sum.splits)

text \<open>
  Claim C6. The query sent by \<^verbatim>\<open>QueryRef.get\<close> has, for exactly one filter, a
  \<^verbatim>\<open>where\<close> that is the bare \<^verbatim>\<open>fieldFilter\<close> node of that filter; for two or more
  filters, a \<^verbatim>\<open>compositeFilter\<close> with \<^verbatim>\<open>op\<close> \<^verbatim>\<open>AND\<close> over the \<^verbatim>\<open>fieldFilter\<close> nodes
  of the filters in the order in which \<^verbatim>\<open>where\<close> accumulated them. The \<^verbatim>\<open>op\<close> of a
  node is \<^verbatim>\<open>opMap[f.op] || 'EQUAL'\<close>: the mapped name, or \<^verbatim>\<open>EQUAL\<close>, for every
  operator that is not a property of \<^verbatim>\<open>Object.prototype\<close>.
\<close>

theorem where_clause_shape:
  assumes tok: "getAccessToken E w = (Inr token, w1)"
    and cfg: "firebaseConfig w1 = Some c"
  shows "\<exists>rq sq. sent (snd (QueryRef_get E q w)) = sent w1 @ [rq] \<and>
           req_body rq = Some (QueryBody sq) \<and>
           (\<forall>f. q_filters q = [f] \<longrightarrow>
              sq_where sq =
                Some (FieldFilter (f_field f)
                        (case opMap_get (f_op f) of None \<Rightarrow> OpName ''EQUAL'' | Some v \<Rightarrow> v)
                        (toFirestoreValue (f_value f)))) \<and>
           (\<forall>f. q_filters q = [f] \<and> f_op f \<notin> set Object_prototype_methods \<and>
                f_op f \<noteq> ''__proto__'' \<longrightarrow>
              sq_where sq =
                Some (FieldFilter (f_field f)
                        (OpName (case map_of opMap (f_op f) of
                                   None \<Rightarrow> ''EQUAL'' | Some name \<Rightarrow> name))
                        (toFirestoreValue (f_value f)))) \<and>
           (2 \<le> length (q_filters q) \<longrightarrow>
              sq_where sq = Some (CompositeFilter ''AND'' (map fieldFilter (q_filters q)))) \<and>
           (\<forall>field opr v. q_filters (QueryRef_where q field opr v) =
              q_filters q @ [\<lparr>f_field = field, f_op = opr, f_value = v\<rparr>])"
  unfolding query_unfold [OF tok cfg] world_after_fetch
  by (auto simp: build_structuredQuery_def Let_def fieldFilter_def QueryRef_where_def
      opMap_get_def split: option.splits)


theorem where_clause_shape_witness:
  "(\<exists>rq sq. sent (snd (QueryRef_get (server 200)
                         (CollectionRef_where ''users'' ''email'' ''=='' (Str ''a@b''))
                         cached_world)) = [rq] \<and>
      req_body rq = Some (QueryBody sq) \<and>
      sq_where sq = Some (FieldFilter ''email'' (OpName ''EQUAL'') (StringValue ''a@b''))) \<and>
   (\<exists>rq sq. sent (snd (QueryRef_get (server 200)
                         (QueryRef_where
                            (CollectionRef_where ''users'' ''email'' ''=='' (Str ''a@b''))
                            ''credits'' ''>='' (Num (IntNum 42)))
                         cached_world)) = [rq] \<and>
      req_body rq = Some (QueryBody sq) \<and>
      sq_where sq =
        Some (CompositeFilter ''AND''
                [FieldFilter ''email'' (OpName ''EQUAL'') (StringValue ''a@b''),
                 FieldFilter ''credits'' (OpName ''GREATER_THAN_OR_EQUAL'')
                   (IntegerValue ''42'')]))"
  using where_clause_shape [OF cached_token cached_config, of "server 200"
      "CollectionRef_where ''users'' ''email'' ''=='' (Str ''a@b'')"]
    where_clause_shape [OF cached_token cached_config, of "server 200"
      "QueryRef_where (CollectionRef_where ''users'' ''email'' ''=='' (Str ''a@b''))
         ''credits'' ''>='' (Num (IntNum 42))"]
  by (auto simp: cached_world_def CollectionRef_where_def QueryRef_where_def opMap_def
      opMap_get_def Object_prototype_methods_def fieldFilter_def Number_toString_42)

section \<open>Properties of the transaction batch\<close>

lemma commit_append:
  "TransactionBatch_commit E (xs @ ys) w =
     (case TransactionBatch_commit E xs w of
        (Inl e, w1) \<Rightarrow> (Inl e, w1)
      | (Inr u, w1) \<Rightarrow> TransactionBatch_commit E ys w1)"
  by (induction xs arbitrary: w) (auto split: prod.splits sum.splits)

lemma getAccessToken_sent:
  "getAccessToken E w = (res, w1) \<Longrightarrow> \<exists>rs. sent w1 = sent w @ rs"
  by (auto simp: getAccessToken_def fetch_eq Let_def
      split: if_splits sum.splits fetch_result.splits)

lemma update_sent:
  "DocumentRef_update E r obj w = (res, w') \<Longrightarrow> \<exists>rs. sent w' = sent w @ rs"
proof -
  assume run: "DocumentRef_update E r obj w = (res, w')"
  obtain res1 w1 where tok: "getAccessToken E w = (res1, w1)"
    by (cases "getAccessToken E w")
  from getAccessToken_sent [OF tok] obtain rs where rs: "sent w1 = sent w @ rs" ..
  from run tok rs show ?thesis
    by (auto simp: DocumentRef_update_def fetch_eq Let_def
        split: sum.splits fetch_result.splits)
qed

lemma set_sent:
  "DocumentRef_set E r obj options w = (res, w') \<Longrightarrow> \<exists>rs. sent w' = sent w @ rs"
proof -
  assume run: "DocumentRef_set E r obj options w = (res, w')"
  obtain res1 w1 where tok: "getAccessToken E w = (res1, w1)"
    by (cases "getAccessToken E w")
  from getAccessToken_sent [OF tok] obtain rs where rs: "sent w1 = sent w @ rs" ..
  from run tok rs show ?thesis
    by (auto simp: DocumentRef_set_def fetch_eq Let_def
        split: sum.splits fetch_result.splits)
qed

lemma run_operation_sent:
  "run_operation E opr w = (res, w') \<Longrightarrow> \<exists>rs. sent w' = sent w @ rs"
  by (cases opr) (auto dest: update_sent set_sent)

lemma commit_sent:
  "TransactionBatch_commit E ops w = (res, w') \<Longrightarrow> \<exists>rs. sent w' = sent w @ rs"
proof (induction ops arbitrary: w)
  case Nil
  then show ?case by simp
next
  case (Cons opr ops)
  obtain res1 w1 where step: "run_operation E opr w = (res1, w1)"
    by (cases "run_operation E opr w")
  from run_operation_sent [OF step] obtain rs where rs: "sent w1 = sent w @ rs" ..
  show ?case
  proof (cases res1)
    case (Inl e)
    with Cons.prems step rs show ?thesis by auto
  next
    case (Inr u)
    with Cons.prems step have "TransactionBatch_commit E ops w1 = (res, w')" by simp
    from Cons.IH [OF this] rs show ?thesis by auto
  qed
qed

lemma unit_result_eta:
  fixes p :: "(error + unit) \<times> world"
  shows "(case p of (Inl e, w) \<Rightarrow> (Inl e, w) | (Inr u, w) \<Rightarrow> (Inr (), w)) = p"
  by (cases p; cases "fst p") auto

lemma commit_single:
  "TransactionBatch_commit E [opr] w = run_operation E opr w"
  using unit_result_eta [of "run_operation E opr w"]
  by (simp split: prod.splits sum.splits)

text \<open>
  A write that the store answers resolves, whatever the status of the answer, so the
  commit goes on to the next operation.
\<close>

lemma run_operation_answered:
  assumes tok: "getAccessToken E w = (Inr token, w1)"
    and cfg: "firebaseConfig w1 = Some c"
    and answers: "\<forall>rq. snd (net E (sent w1) rq) \<noteq> Rejected"
  shows "fst (run_operation E opr w) = Inr ()"
proof (cases opr)
  case (UpdateOp r d)
  obtain resp w2 where "fetch E (update_request c token r d) w1 = (Inr resp, w2)"
    using fetch_answered answers by blast
  then show ?thesis by (simp add: UpdateOp update_unfold [OF tok cfg])
next
  case (SetOp r d opts)
  obtain resp w2 where "fetch E (set_request c token r d opts) w1 = (Inr resp, w2)"
    using fetch_answered answers by blast
  then show ?thesis by (simp add: SetOp set_unfold [OF tok cfg])
qed

lemma commit_step_resolved:
  "fst (run_operation E opr w) = Inr () \<Longrightarrow>
   TransactionBatch_commit E (opr # rest) w =
     TransactionBatch_commit E rest (snd (run_operation E opr w))"
  by (cases "run_operation E opr w") simp

text \<open>
  Claim C7, as stated, at a concrete run: the store refuses each of three writes with
  status 404; the commit attempts all three and resolves, surfacing nothing.
\<close>

theorem refused_writes_counterexample:
  "fst (TransactionBatch_commit (server 404)
          [UpdateOp user_ref [(''a'', Num (IntNum 1))],
           UpdateOp user_ref [(''b'', Num (IntNum 2))],
           SetOp user_ref [(''c'', Num (IntNum 3))] no_options] cached_world) = Inr () \<and>
   length (sent (snd (TransactionBatch_commit (server 404)
          [UpdateOp user_ref [(''a'', Num (IntNum 1))],
           UpdateOp user_ref [(''b'', Num (IntNum 2))],
           SetOp user_ref [(''c'', Num (IntNum 3))] no_options] cached_world))) = 3"
  by (simp add: DocumentRef_update_def DocumentRef_set_def getAccessToken_def truthy_def
      getFirestoreUrl_def fetch_def server_def cached_world_def no_options_def)

text \<open>
  Claim C7, amended. \<^verbatim>\<open>update\<close> and \<^verbatim>\<open>set\<close> enqueue at the end of the batch, and
  \<^verbatim>\<open>commit\<close> (which \<^verbatim>\<open>runTransaction\<close> calls on what the callback enqueued) runs the
  operations one after the other in that order, each awaited before the next. When an
  operation rejects (the token cannot be obtained, or \<^verbatim>\<open>fetch\<close> itself rejects),
  after the operations before it have resolved, the commit rejects with that error in
  the very world the operation left: the requests of the earlier operations stay
  sent, nothing is undone, and no later operation is attempted. A write that the store
  answers, whatever the status, resolves, and the commit goes on with the next
  operation.
\<close>

theorem commit_stops_at_first_failure:
  "TransactionBatch_update ops r d = ops @ [UpdateOp r d] \<and>
   TransactionBatch_set ops r d opts = ops @ [SetOp r d opts] \<and>
   TransactionBatch_commit E (TransactionBatch_update ops r d) w =
     (case TransactionBatch_commit E ops w of
        (Inl e, w1) \<Rightarrow> (Inl e, w1)
      | (Inr u, w1) \<Rightarrow> DocumentRef_update E r d w1) \<and>
   TransactionBatch_commit E (TransactionBatch_set ops r d opts) w =
     (case TransactionBatch_commit E ops w of
        (Inl e, w1) \<Rightarrow> (Inl e, w1)
      | (Inr u, w1) \<Rightarrow> DocumentRef_set E r d opts w1) \<and>
   (callback [] w = (Inr batch, w0) \<longrightarrow>
      runTransaction E callback w = TransactionBatch_commit E batch w0) \<and>
   (TransactionBatch_commit E pre w = (Inr (), wk) \<and>
    run_operation E opk wk = (Inl e, wfail) \<longrightarrow>
      TransactionBatch_commit E (pre @ opk # post) w = (Inl e, wfail) \<and>
      (\<exists>rs. sent wk = sent w @ rs) \<and> (\<exists>rs. sent wfail = sent wk @ rs)) \<and>
   (TransactionBatch_commit E pre w = (Inr (), wk) \<longrightarrow>
      TransactionBatch_commit E (pre @ post) w = TransactionBatch_commit E post wk) \<and>
   (getAccessToken E w = (Inr token, w1) \<and> firebaseConfig w1 = Some c \<and>
    (\<forall>rq. snd (net E (sent w1) rq) \<noteq> Rejected) \<longrightarrow>
      fst (run_operation E opr w) = Inr () \<and>
      TransactionBatch_commit E (opr # rest) w =
        TransactionBatch_commit E rest (snd (run_operation E opr w)))"
proof (intro conjI impI)
  show "TransactionBatch_update ops r d = ops @ [UpdateOp r d]"
    by (simp add: TransactionBatch_update_def)
  show "TransactionBatch_set ops r d opts = ops @ [SetOp r d opts]"
    by (simp add: TransactionBatch_set_def)
  show "TransactionBatch_commit E (TransactionBatch_update ops r d) w =
     (case TransactionBatch_commit E ops w of
        (Inl e, w1) \<Rightarrow> (Inl e, w1)
      | (Inr u, w1) \<Rightarrow> DocumentRef_update E r d w1)"
    unfolding TransactionBatch_update_def commit_append commit_single
    by (simp split: prod.splits sum.splits)
  show "TransactionBatch_commit E (TransactionBatch_set ops r d opts) w =
     (case TransactionBatch_commit E ops w of
        (Inl e, w1) \<Rightarrow> (Inl e, w1)
      | (Inr u, w1) \<Rightarrow> DocumentRef_set E r d opts w1)"
    unfolding TransactionBatch_set_def commit_append commit_single
    by (simp split: prod.splits sum.splits)
next
  assume "callback [] w = (Inr batch, w0)"
  then show "runTransaction E callback w = TransactionBatch_commit E batch w0"
    by (simp add: runTransaction_def)
next
  assume h: "TransactionBatch_commit E pre w = (Inr (), wk) \<and>
    run_operation E opk wk = (Inl e, wfail)"
  then show "TransactionBatch_commit E (pre @ opk # post) w = (Inl e, wfail)"
    by (simp add: commit_append)
  from h commit_sent show "\<exists>rs. sent wk = sent w @ rs" by blast
  from h run_operation_sent show "\<exists>rs. sent wfail = sent wk @ rs" by blast
next
  assume "TransactionBatch_commit E pre w = (Inr (), wk)"
  then show "TransactionBatch_commit E (pre @ post) w = TransactionBatch_commit E post wk"
    by (simp add: commit_append)
next
  assume h: "getAccessToken E w = (Inr token, w1) \<and> firebaseConfig w1 = Some c \<and>
    (\<forall>rq. snd (net E (sent w1) rq) \<noteq> Rejected)"
  then show ok: "fst (run_operation E opr w) = Inr ()"
    using run_operation_answered by blast
  then show "TransactionBatch_commit E (opr # rest) w =
        TransactionBatch_commit E rest (snd (run_operation E opr w))"
    by (rule commit_step_resolved)
qed

theorem commit_stops_at_first_failure_witness:
  "(\<exists>e wfail.
      runTransaction (failing_after 1)
        (\<lambda>batch w.
           (Inr (TransactionBatch_set
                   (TransactionBatch_update
                      (TransactionBatch_update batch user_ref [(''a'', Num (IntNum 1))])
                      user_ref [(''b'', Num (IntNum 2))])
                   user_ref [(''c'', Num (IntNum 3))] no_options), w))
        cached_world = (Inl e, wfail) \<and>
      sent wfail = [update_request demo_config (Some ''tok'') user_ref [(''a'', Num (IntNum 1))],
                    update_request demo_config (Some ''tok'') user_ref [(''b'', Num (IntNum 2))]]) \<and>
   fst (run_operation (failing_after 1) (UpdateOp user_ref [(''a'', Num (IntNum 1))])
          cached_world) = Inr ()"
proof -
  let ?A = "UpdateOp user_ref [(''a'', Num (IntNum 1))]"
  let ?B = "UpdateOp user_ref [(''b'', Num (IntNum 2))]"
  let ?C = "SetOp user_ref [(''c'', Num (IntNum 3))] no_options"
  let ?callback = "\<lambda>batch w.
           (Inr (TransactionBatch_set
                   (TransactionBatch_update
                      (TransactionBatch_update batch user_ref [(''a'', Num (IntNum 1))])
                      user_ref [(''b'', Num (IntNum 2))])
                   user_ref [(''c'', Num (IntNum 3))] no_options), w :: world)
           :: (error + operation list) \<times> world"
  let ?w1 = "cached_world\<lparr>sent := [update_request demo_config (Some ''tok'') user_ref
                                        [(''a'', Num (IntNum 1))]], clock := 2005\<rparr>"
  let ?w2 = "?w1\<lparr>sent := sent ?w1 @ [update_request demo_config (Some ''tok'') user_ref
                                        [(''b'', Num (IntNum 2))]], clock := 2010\<rparr>"
  have tok1: "getAccessToken (failing_after 1) ?w1 = (Inr (Some ''tok''), ?w1)"
    by (simp add: getAccessToken_def truthy_def cached_fields)
  have cfg1: "firebaseConfig ?w1 = Some demo_config"
    by (simp add: cached_config)
  have pre: "TransactionBatch_commit (failing_after 1) [?A] cached_world = (Inr (), ?w1)"
    by (simp add: update_unfold [OF cached_token cached_config] fetch_eq failing_after_def
        cached_fields)
  have fails: "run_operation (failing_after 1) ?B ?w1 = (Inl TypeError, ?w2)"
    unfolding run_operation.simps update_unfold [OF tok1 cfg1]
    by (simp add: fetch_eq failing_after_def cached_fields)
  have enq: "?callback [] cached_world = (Inr ([?A] @ ?B # [?C]), cached_world)"
    by (simp add: TransactionBatch_update_def TransactionBatch_set_def)
  have answers: "\<forall>rq. snd (net (failing_after 1) (sent cached_world) rq) \<noteq> Rejected"
    by (simp add: failing_after_def cached_fields)
  note rules = commit_stops_at_first_failure [where E = "failing_after 1" and w = cached_world
      and callback = ?callback and batch = "[?A] @ ?B # [?C]" and ?w0.0 = cached_world
      and pre = "[?A]" and wk = ?w1 and opk = ?B and e = TypeError and wfail = ?w2
      and post = "[?C]" and token = "Some ''tok''" and ?w1.0 = cached_world
      and c = demo_config and opr = ?A]
  from rules enq have run: "runTransaction (failing_after 1) ?callback cached_world =
      TransactionBatch_commit (failing_after 1) ([?A] @ ?B # [?C]) cached_world"
    by blast
  from rules pre fails have stop:
    "TransactionBatch_commit (failing_after 1) ([?A] @ ?B # [?C]) cached_world =
       (Inl TypeError, ?w2)"
    by blast
  from rules cached_token cached_config answers
  have resolved: "fst (run_operation (failing_after 1) ?A cached_world) = Inr ()"
    by blast
  have "sent ?w2 = [update_request demo_config (Some ''tok'') user_ref [(''a'', Num (IntNum 1))],
                    update_request demo_config (Some ''tok'') user_ref [(''b'', Num (IntNum 2))]]"
    by simp
  with run stop resolved show ?thesis by metis
qed

section \<open>Properties of the credential signer\<close>

text \<open>
  Claim C8. When no valid token is cached and the exchange succeeds with the token
  \<open>tok\<close> and the lifetime \<open>secs\<close>, \<^verbatim>\<open>getAccessToken\<close> returns \<open>tok\<close> after exactly one
  request, caches it, and sets the expiry to the time of the call plus \<open>secs - 60\<close>
  seconds (in milliseconds). Any call made before the expiry returns the cached token
  and leaves the world as it is: no request. A call at or after the expiry sends
  exactly one token request.
\<close>

theorem token_cache:
  assumes "tok \<noteq> []"
  shows "(\<not> (truthy (accessToken w) \<and> (\<exists>t. tokenExpiry w = Some t \<and> clock w < t)) \<and>
          createJWT E w = Inr jwt \<and>
          net E (sent w) (token_request jwt) = (dt, Responded resp) \<and>
          ok resp \<and> json_body resp = Some (TokenJson (Some tok) (Some secs) d1 d2) \<longrightarrow>
          (\<exists>w1. getAccessToken E w = (Inr (Some tok), w1) \<and>
                accessToken w1 = Some tok \<and>
                tokenExpiry w1 = Some (clock w + (secs - 60) * 1000) \<and>
                sent w1 = sent w @ [token_request jwt])) \<and>
         (accessToken wc = Some tok \<and> tokenExpiry wc = Some t \<and> clock wc < t \<longrightarrow>
          getAccessToken E wc = (Inr (Some tok), wc)) \<and>
         (accessToken we = Some tok \<and> tokenExpiry we = Some t \<and> t \<le> clock we \<and>
          createJWT E we = Inr jwt' \<longrightarrow>
          sent (snd (getAccessToken E we)) = sent we @ [token_request jwt'])"
proof (intro conjI impI)
  assume h: "\<not> (truthy (accessToken w) \<and> (\<exists>t. tokenExpiry w = Some t \<and> clock w < t)) \<and>
          createJWT E w = Inr jwt \<and>
          net E (sent w) (token_request jwt) = (dt, Responded resp) \<and>
          ok resp \<and> json_body resp = Some (TokenJson (Some tok) (Some secs) d1 d2)"
  then have stale: "(truthy (accessToken w) \<and>
                      (case tokenExpiry w of None \<Rightarrow> False | Some t \<Rightarrow> clock w < t)) = False"
    by (cases "tokenExpiry w") auto
  from h show "\<exists>w1. getAccessToken E w = (Inr (Some tok), w1) \<and>
                accessToken w1 = Some tok \<and>
                tokenExpiry w1 = Some (clock w + (secs - 60) * 1000) \<and>
                sent w1 = sent w @ [token_request jwt]"
    by (simp add: getAccessToken_def Let_def stale fetch_Responded response_json_def)
next
  assume "accessToken wc = Some tok \<and> tokenExpiry wc = Some t \<and> clock wc < t"
  with assms show "getAccessToken E wc = (Inr (Some tok), wc)"
    by (simp add: getAccessToken_def truthy_def)
next
  assume "accessToken we = Some tok \<and> tokenExpiry we = Some t \<and> t \<le> clock we \<and>
          createJWT E we = Inr jwt'"
  then show "sent (snd (getAccessToken E we)) = sent we @ [token_request jwt']"
    by (simp add: getAccessToken_def Let_def fetch_eq response_json_def
        split: fetch_result.splits option.splits)
qed

theorem token_cache_witness:
  "(\<exists>w1. getAccessToken (server 200) fresh_world = (Inr (Some ''tok''), w1) \<and>
         accessToken w1 = Some ''tok'' \<and> tokenExpiry w1 = Some 3541000 \<and>
         sent w1 = [token_request ''jwt'']) \<and>
   getAccessToken (server 200) cached_world = (Inr (Some ''tok''), cached_world) \<and>
   sent (snd (getAccessToken (server 200) (cached_world\<lparr>clock := 3541000\<rparr>))) =
     [token_request ''jwt'']"
proof -
  have nonempty: "''tok'' \<noteq> []" by simp
  have jwt: "createJWT (server 200) fresh_world = Inr ''jwt''"
    "createJWT (server 200) (cached_world\<lparr>clock := 3541000\<rparr>) = Inr ''jwt''"
    by (simp_all add: createJWT_def fixtures)
  have net: "net (server 200) (sent fresh_world) (token_request ''jwt'') =
               (7, Responded \<lparr>status = 200,
                     json_body = Some (TokenJson (Some ''tok'') (Some 3600) None None)\<rparr>)"
    by (simp add: server_def token_request_def)
  from token_cache [OF nonempty, of fresh_world "server 200" "''jwt''" 7
      "\<lparr>status = 200, json_body = Some (TokenJson (Some ''tok'') (Some 3600) None None)\<rparr>"
      3600 None None cached_world 3541000 "cached_world\<lparr>clock := 3541000\<rparr>" "''jwt''"]
    jwt net
  show ?thesis
    by (simp add: ok_def truthy_def cached_fields) (simp add: fresh_world_def)
qed

section \<open>Field transforms\<close>

text \<open>
  Claim C10. \<^verbatim>\<open>FieldValue.increment(n)\<close> and \<^verbatim>\<open>FieldValue.serverTimestamp()\<close> are
  plain objects, and the codec encodes them as ordinary maps with the literal keys
  \<^verbatim>\<open>__fieldTransform\<close> and \<^verbatim>\<open>value\<close>. An \<^verbatim>\<open>update\<close> with an increment sends a
  \<^verbatim>\<open>PATCH\<close> whose document holds that map as the value of the field; the request
  has no other part that could ask the store for a numeric increment. (The field is
  any field that \<^verbatim>\<open>objectToDoc\<close> can write: any name but \<^verbatim>\<open>__proto__\<close>.)
\<close>

theorem increment_is_literal_map:
  "toFirestoreValue (FieldValue_increment (Num n)) =
     MapValue (Some [(''__fieldTransform'', StringValue ''increment''),
                     (''value'', toFirestoreValue (Num n))]) \<and>
   toFirestoreValue FieldValue_serverTimestamp =
     MapValue (Some [(''__fieldTransform'', StringValue ''serverTimestamp'')]) \<and>
   (f \<noteq> ''__proto__'' \<longrightarrow>
    objectToDoc [(f, FieldValue_serverTimestamp)] =
      [(f, MapValue (Some [(''__fieldTransform'', StringValue ''serverTimestamp'')]))]) \<and>
   (f \<noteq> ''__proto__'' \<and>
    getAccessToken E w = (Inr token, w1) \<and> firebaseConfig w1 = Some c \<longrightarrow>
    (\<exists>rq. sent (snd (DocumentRef_update E r [(f, FieldValue_increment (Num n))] w)) =
             sent w1 @ [rq] \<and>
          req_method rq = ''PATCH'' \<and>
          req_body rq =
            Some (DocBody
              [(f, MapValue (Some [(''__fieldTransform'', StringValue ''increment''),
                                   (''value'', toFirestoreValue (Num n))]))])))"
proof (intro conjI impI)
  assume "f \<noteq> ''__proto__'' \<and>
    getAccessToken E w = (Inr token, w1) \<and> firebaseConfig w1 = Some c"
  then have tok: "getAccessToken E w = (Inr token, w1)" and cfg: "firebaseConfig w1 = Some c"
    and plain: "f \<noteq> ''__proto__''"
    by simp_all
  show "\<exists>rq. sent (snd (DocumentRef_update E r [(f, FieldValue_increment (Num n))] w)) =
             sent w1 @ [rq] \<and>
          req_method rq = ''PATCH'' \<and>
          req_body rq =
            Some (DocBody
              [(f, MapValue (Some [(''__fieldTransform'', StringValue ''increment''),
                                   (''value'', toFirestoreValue (Num n))]))])"
    unfolding world_after_update [OF tok cfg] world_after_fetch
    using plain
    by (simp add: objectToDoc_def FieldValue_increment_def set_prop_def)
qed (simp_all add: FieldValue_increment_def FieldValue_serverTimestamp_def objectToDoc_def
    set_prop_def)

theorem increment_is_literal_map_witness:
  "\<exists>rq. sent (snd (DocumentRef_update (server 200) user_ref
                     [(''totalSent'', FieldValue_increment (Num (IntNum 1)))] cached_world)) = [rq] \<and>
        req_method rq = ''PATCH'' \<and>
        req_body rq =
          Some (DocBody
            [(''totalSent'', MapValue (Some [(''__fieldTransform'', StringValue ''increment''),
                                             (''value'', IntegerValue ''1'')]))])"
proof -
  have one: "Number_toString 1 = ''1''" by (simp add: number_eval)
  from increment_is_literal_map [of "IntNum 1" "''totalSent''" "server 200" cached_world
      "Some ''tok''" cached_world demo_config user_ref] cached_token cached_config
  show ?thesis by (simp add: cached_fields one)
qed

end
